theory Spec2Isabelle
  imports Main "HOL-Library.Sublist"
begin

section \<open>Table filters of the schema reader\<close>

text \<open>
  A shallow embedding of \<^verbatim>\<open>schemareader/tableFilters.go\<close>: the function
  \<^verbatim>\<open>applyTableFilters\<close>, its switch over table names, and the two row callbacks
  it installs. Go strings and byte slices are lists of 8-bit characters. A run-time panic
  of the Go code is a value \<open>Inl p\<close> of the result type.
\<close>

subsection \<open>Data model\<close>

datatype panic =
    NilMapAssignment      \<comment> \<open>assignment to an entry of a nil map\<close>
  | TypeAssertion         \<comment> \<open>failed \<^verbatim>\<open>x.(T)\<close> on an interface value\<close>
  | IndexOutOfRange       \<comment> \<open>slice index out of range\<close>

text \<open>
  The dynamic values a column can hold (Go's \<^verbatim>\<open>interface{}\<close>): nil, a string, a byte
  slice, and values of other dynamic types, which the code never inspects.
\<close>

datatype sqlvalue =
    VNil
  | VString string
  | VBytes "char list"
  | VInt int
  | VBool bool

text \<open>
  Modelled from the spec: the struct \<^verbatim>\<open>sqlUtil.RowDataStructure\<close> and its method
  \<^verbatim>\<open>GetInitialValue\<close> are declared in another package. A row is an ordered sequence of
  columns; each column has a name, a schema-known type, its current value, and the
  column's declared initial value, which \<^verbatim>\<open>GetInitialValue\<close> returns.
\<close>

record RowDataStructure =
  ColumnName :: string
  ColumnType :: string
  initialValue :: sqlvalue
  Value :: sqlvalue

definition GetInitialValue :: "RowDataStructure \<Rightarrow> sqlvalue" where
  "GetInitialValue row = initialValue row"

text \<open>
  Modelled from the spec: the structs \<^verbatim>\<open>UniqueIndex\<close>, \<^verbatim>\<open>Reference\<close> and
  \<^verbatim>\<open>Table\<close> are declared in another file of the package. Only the fields that
  \<^verbatim>\<open>applyTableFilters\<close> reads or writes are kept. The two maps that the code assigns
  into or replaces are optional: \<open>None\<close> is Go's nil map, which reads as empty and
  panics on assignment. The callback's second parameter, the table, is dropped: neither
  installed closure reads it. The field \<^verbatim>\<open>Name\<close> of \<^verbatim>\<open>UniqueIndex\<close> is \<open>IndexName\<close>
  here, since a record field of that name belongs to \<open>Table\<close>.

  \<^verbatim>\<open>Columns\<close> is a Go slice: a window on a backing array, with a length and a capacity.
  \<open>Columns\<close> holds the elements of the window. Where the \<^verbatim>\<open>Columns\<close> slices of several
  entries of one \<^verbatim>\<open>UniqueIndexes\<close> map share a backing array, a write through one of them
  shows in the others; \<open>sharedColumns\<close> records, for the index names of such entries, the
  array, the offset of the window in it, and the capacity of the slice. An index name
  without an entry there has a slice whose array no other entry of the map uses.
\<close>

record backing =
  arrayId :: nat
  offset :: nat
  capacity :: nat

record UniqueIndex =
  IndexName :: string
  Columns :: "string list"

record Reference =
  TableName :: string
  ColumnMapping :: "string \<rightharpoonup> string"

type_synonym row = "RowDataStructure list"

record Table =
  Name :: string
  PKSequence :: string
  UniqueIndexes :: "(string \<rightharpoonup> UniqueIndex) option"
  sharedColumns :: "string \<rightharpoonup> backing"
  MainUniqueIndexName :: string
  UnexportColumns :: "(string \<rightharpoonup> bool) option"
  References :: "Reference list"
  RowModCallback :: "(row \<Rightarrow> panic + row) option"

definition VirtualIndexName :: string where
  "VirtualIndexName = ''virtual_main_unique_index''"

subsection \<open>Operations of the Go runtime and library used by the code\<close>

definition andThen :: "panic + 'a \<Rightarrow> ('a \<Rightarrow> panic + 'b) \<Rightarrow> panic + 'b" where
  "andThen r f = (case r of Inl p \<Rightarrow> Inl p | Inr x \<Rightarrow> f x)"

text \<open>\<^verbatim>\<open>table.UniqueIndexes[k] = v\<close>: panics on a nil map.\<close>

definition setUniqueIndex :: "string \<Rightarrow> UniqueIndex \<Rightarrow> Table \<Rightarrow> panic + Table" where
  "setUniqueIndex k v table =
     (case UniqueIndexes table of
        None \<Rightarrow> Inl NilMapAssignment
      | Some m \<Rightarrow> Inr (table\<lparr>UniqueIndexes := Some (m(k \<mapsto> v))\<rparr>))"

text \<open>
  \<^verbatim>\<open>table.UniqueIndexes[k].Columns\<close>: a missing key, also of a nil map, reads as the
  zero \<^verbatim>\<open>UniqueIndex\<close>, whose column slice is empty.
\<close>

definition indexColumns :: "Table \<Rightarrow> string \<Rightarrow> string list" where
  "indexColumns table k =
     (case UniqueIndexes table of
        None \<Rightarrow> []
      | Some m \<Rightarrow> (case m k of None \<Rightarrow> [] | Some ui \<Rightarrow> Columns ui))"

text \<open>
  A write of \<open>x\<close> at position \<open>p\<close> of the array \<open>a\<close>, as the entries of the map see it:
  every entry whose slice is a window on \<open>a\<close> that covers \<open>p\<close> has that element changed.
\<close>

definition writeShared ::
  "(string \<rightharpoonup> backing) \<Rightarrow> nat \<Rightarrow> nat \<Rightarrow> string \<Rightarrow> (string \<rightharpoonup> UniqueIndex) \<Rightarrow>
   (string \<rightharpoonup> UniqueIndex)" where
  "writeShared shared a p x m =
     (\<lambda>j. case m j of
            None \<Rightarrow> None
          | Some ui \<Rightarrow>
              (case shared j of
                 None \<Rightarrow> Some ui
               | Some b \<Rightarrow>
                   if arrayId b = a \<and> offset b \<le> p \<and> p < offset b + length (Columns ui)
                   then Some (ui\<lparr>Columns := (Columns ui)[p - offset b := x]\<rparr>)
                   else Some ui))"

text \<open>
  \<^verbatim>\<open>table.UniqueIndexes[k] = UniqueIndex{Name: k, Columns: append(table.UniqueIndexes[k].Columns, x)}\<close>.
  The right-hand side is evaluated first. \<^verbatim>\<open>append\<close> on a slice with spare capacity
  writes \<open>x\<close> into the backing array, just behind the window, and returns the window
  made one longer; on a slice that is full (as the empty slice of a missing key is) it
  copies the elements to a new array. Then the assignment panics on a nil map.
\<close>

definition appendToIndex :: "string \<Rightarrow> string \<Rightarrow> Table \<Rightarrow> panic + Table" where
  "appendToIndex k x table =
     (case UniqueIndexes table of
        None \<Rightarrow> Inl NilMapAssignment
      | Some m \<Rightarrow>
          (let cols = indexColumns table k;
               appended = \<lparr>IndexName = k, Columns = cols @ [x]\<rparr>
           in case (case m k of None \<Rightarrow> None | Some ui \<Rightarrow> sharedColumns table k) of
                None \<Rightarrow>
                  Inr (table\<lparr>UniqueIndexes := Some (m(k \<mapsto> appended)),
                            sharedColumns := (sharedColumns table)(k := None)\<rparr>)
              | Some b \<Rightarrow>
                  if length cols < capacity b then
                    Inr (table\<lparr>UniqueIndexes :=
                           Some ((writeShared (sharedColumns table) (arrayId b)
                                    (offset b + length cols) x m)(k \<mapsto> appended))\<rparr>)
                  else
                    Inr (table\<lparr>UniqueIndexes := Some (m(k \<mapsto> appended)),
                              sharedColumns := (sharedColumns table)(k := None)\<rparr>)))"

definition HasPrefix :: "string \<Rightarrow> string \<Rightarrow> bool" where
  "HasPrefix s pre = prefix pre s"

text \<open>
  The regular expression \<^verbatim>\<open>https://[^/]+/os-images/\<close> anchored at the head of the
  input: the length of its match there, if any. The class \<^verbatim>\<open>[^/]+\<close> is followed by a
  literal slash, so the only possible match takes the whole run of non-slash bytes after
  the scheme as the host. The expression is matched on runes, but every literal of it is
  ASCII and no byte of a multi-byte rune (or invalid byte, read as one rune) is a slash,
  so matching byte by byte gives the same matches.
\<close>

definition matchHere :: "char list \<Rightarrow> nat option" where
  "matchHere bs =
     (if prefix ''https://'' bs then
        (let rest = drop 8 bs;
             host = takeWhile (\<lambda>c. c \<noteq> CHR ''/'') rest;
             after = dropWhile (\<lambda>c. c \<noteq> CHR ''/'') rest
         in if host \<noteq> [] \<and> prefix ''/os-images/'' after
            then Some (8 + length host + 11) else None)
      else None)"

definition repl :: "char list" where
  "repl = ''https://{SERVER_FQDN}/os-images/''"

text \<open>
  \<^verbatim>\<open>re.ReplaceAll(src, repl)\<close> for that expression: the matches are found from left to
  right, each search starting where the previous match ended; the bytes between matches
  are copied and every match is replaced by \<open>repl\<close>, which has no \<^verbatim>\<open>$\<close> to expand.
\<close>

fun ReplaceAll :: "char list \<Rightarrow> char list" where
  "ReplaceAll [] = []"
| "ReplaceAll (c # cs) =
     (case matchHere (c # cs) of
        Some n \<Rightarrow> repl @ ReplaceAll (drop (n - 1) cs)
      | None \<Rightarrow> c # ReplaceAll cs)"

subsection \<open>The row callbacks\<close>

text \<open>
  The closure installed for \<^verbatim>\<open>rhnerrata\<close>: every column named \<^verbatim>\<open>severity_id\<close> gets
  its initial value; the slice is updated in place and returned.
\<close>

fun rhnerrataCallback :: "row \<Rightarrow> row" where
  "rhnerrataCallback [] = []"
| "rhnerrataCallback (r # rest) =
     (if ColumnName r = ''severity_id''
      then r\<lparr>Value := GetInitialValue r\<rparr> # rhnerrataCallback rest
      else r # rhnerrataCallback rest)"

text \<open>
  The loop of the closure installed for \<^verbatim>\<open>susesaltpillar\<close>, over the columns from
  index \<open>i\<close> on, with the two loop variables. The type assertion \<^verbatim>\<open>column.Value.(string)\<close>
  is evaluated only for a column named \<^verbatim>\<open>category\<close> (the left operand of \<^verbatim>\<open>&&\<close>).
  The call of \<^verbatim>\<open>log.Trace\<close> writes a log line and has no part in the result; it is left
  out.
\<close>

fun pillarScan :: "row \<Rightarrow> nat \<Rightarrow> bool \<Rightarrow> nat \<Rightarrow> panic + (bool \<times> nat)" where
  "pillarScan [] i isImagePillar pillarColumn = Inr (isImagePillar, pillarColumn)"
| "pillarScan (column # rest) i isImagePillar pillarColumn =
     (if ColumnName column = ''category'' then
        (case Value column of
           VString s \<Rightarrow>
             if HasPrefix s ''Image'' then pillarScan rest (Suc i) True pillarColumn
             else if ColumnName column = ''pillar'' then pillarScan rest (Suc i) isImagePillar i
             else pillarScan rest (Suc i) isImagePillar pillarColumn
         | _ \<Rightarrow> Inl TypeAssertion)
      else if ColumnName column = ''pillar'' then pillarScan rest (Suc i) isImagePillar i
      else pillarScan rest (Suc i) isImagePillar pillarColumn)"

definition susesaltpillarCallback :: "row \<Rightarrow> panic + row" where
  "susesaltpillarCallback value =
     (case pillarScan value 0 False 0 of
        Inl p \<Rightarrow> Inl p
      | Inr (isImagePillar, pillarColumn) \<Rightarrow>
          if isImagePillar then
            (if pillarColumn < length value then
               (case Value (value ! pillarColumn) of
                  VBytes b \<Rightarrow>
                    Inr (value[pillarColumn := (value ! pillarColumn)\<lparr>Value := VBytes (ReplaceAll b)\<rparr>])
                | _ \<Rightarrow> Inl TypeAssertion)
             else Inl IndexOutOfRange)
          else Inr value)"

subsection \<open>applyTableFilters\<close>

text \<open>The loop of the \<^verbatim>\<open>suseimageprofile\<close> case, appending to \<open>references\<close>.\<close>

fun retargetReferences :: "Reference list \<Rightarrow> Reference list \<Rightarrow> Reference list" where
  "retargetReferences [] references = references"
| "retargetReferences (r # rest) references =
     (if TableName r = ''rhnregtoken''
      then retargetReferences rest
             (references @ [\<lparr>TableName = ''rhnactivationkey'',
                             ColumnMapping = [''token_id'' \<mapsto> ''reg_token_id'']\<rparr>])
      else retargetReferences rest (references @ [r]))"

text \<open>
  The two statements shared by the cases that add a virtual unique index: the assignment
  into the map, then the assignment of the main index name. The column slice is a
  literal, so its array is new and no other entry of the map uses it.
\<close>

definition addVirtualIndex :: "string list \<Rightarrow> Table \<Rightarrow> panic + Table" where
  "addVirtualIndex virtualIndexColumns table =
     andThen (setUniqueIndex VirtualIndexName
                \<lparr>IndexName = VirtualIndexName, Columns = virtualIndexColumns\<rparr> table)
       (\<lambda>table. Inr (table\<lparr>sharedColumns := (sharedColumns table)(VirtualIndexName := None),
                           MainUniqueIndexName := VirtualIndexName\<rparr>))"

definition applyTableFilters :: "Table \<Rightarrow> panic + Table" where
  "applyTableFilters table =
    (if Name table = ''rhnchecksumtype'' then
       Inr (table\<lparr>PKSequence := ''rhn_checksum_id_seq''\<rparr>)
     else if Name table = ''rhnchecksum'' then
       Inr (table\<lparr>PKSequence := ''rhnchecksum_seq''\<rparr>)
     else if Name table = ''rhnpackagearch'' then
       Inr (table\<lparr>PKSequence := ''rhn_package_arch_id_seq''\<rparr>)
     else if Name table = ''rhnchannelarch'' then
       Inr (table\<lparr>PKSequence := ''rhn_channel_arch_id_seq''\<rparr>)
     else if Name table = ''rhnpackagename'' then
       Inr (table\<lparr>PKSequence := ''RHN_PKG_NAME_SEQ''\<rparr>)
     else if Name table = ''rhnpackagenevra'' then
       Inr (table\<lparr>PKSequence := ''rhn_pkgnevra_id_seq''\<rparr>)
     else if Name table = ''rhnpackagesource'' then
       Inr (table\<lparr>PKSequence := ''rhn_package_source_id_seq''\<rparr>)
     else if Name table = ''rhnpackagekey'' then
       Inr (table\<lparr>PKSequence := ''rhn_pkey_id_seq''\<rparr>)
     else if Name table = ''rhnpackageextratag'' then
       addVirtualIndex [''package_id'', ''key_id''] table
     else if Name table = ''rhnpackageevr'' then
       (let table = table\<lparr>PKSequence := ''rhn_pkg_evr_seq''\<rparr>;
            table = table\<lparr>UnexportColumns := Some [''type'' \<mapsto> True]\<rparr>
        in andThen (appendToIndex ''rhn_pe_v_r_e_uq'' ''type'' table)
             (\<lambda>table. appendToIndex ''rhn_pe_v_r_uq'' ''type'' table))
     else if Name table = ''rhnpackage'' then
       addVirtualIndex [''name_id'', ''evr_id'', ''package_arch_id'', ''checksum_id'', ''org_id'']
         (table\<lparr>PKSequence := ''RHN_PACKAGE_ID_SEQ''\<rparr>)
     else if Name table = ''rhnpackagechangelogdata'' then
       addVirtualIndex [''name'', ''text'', ''time'']
         (table\<lparr>PKSequence := ''rhn_pkg_cld_id_seq''\<rparr>)
     else if Name table = ''rhnpackagechangelogrec'' then
       Inr (table\<lparr>PKSequence := ''rhn_pkg_cl_id_seq''\<rparr>)
     else if Name table = ''rhnpackagecapability'' then
       addVirtualIndex [''name'', ''version'']
         (table\<lparr>PKSequence := ''RHN_PKG_CAPABILITY_ID_SEQ''\<rparr>)
     else if Name table = ''rhnconfigfiletype'' then
       addVirtualIndex [''label''] table
     else if Name table = ''rhnconfigfile'' then
       Inr (table\<lparr>UnexportColumns := Some [''latest_config_revision_id'' \<mapsto> True]\<rparr>)
     else if Name table = ''rhnconfigcontent'' then
       addVirtualIndex [''contents'', ''file_size'', ''checksum_id'', ''is_binary'',
                        ''delim_start'', ''delim_end'', ''created''] table
     else if Name table = ''suseimageinfo'' then
       addVirtualIndex [''name'', ''version'', ''image_type'', ''image_arch_id'', ''org_id'',
                        ''curr_revision_num'']
         (table\<lparr>UnexportColumns :=
            Some [''build_action_id'' \<mapsto> True, ''inspect_action_id'' \<mapsto> True,
                  ''build_server_id'' \<mapsto> True, ''log'' \<mapsto> True]\<rparr>)
     else if Name table = ''suseimageinfochannel'' then
       addVirtualIndex [''channel_id'', ''image_info_id''] table
     else if Name table = ''suseimageprofile'' then
       (let table = table\<lparr>PKSequence := ''suse_imgprof_prid_seq''\<rparr>
        in Inr (table\<lparr>References := retargetReferences (References table) []\<rparr>))
     else if Name table = ''susekiwiprofile'' then
       addVirtualIndex [''profile_id''] table
     else if Name table = ''susedockerfileprofile'' then
       addVirtualIndex [''profile_id'', ''path''] table
     else if Name table = ''rhnerrata'' then
       (let table = table\<lparr>MainUniqueIndexName := ''rhn_errata_adv_org_uq''\<rparr>
        in Inr (table\<lparr>RowModCallback := Some (\<lambda>value. Inr (rhnerrataCallback value))\<rparr>))
     else if Name table = ''susesaltpillar'' then
       addVirtualIndex [''server_id'', ''group_id'', ''org_id'', ''category'']
         (table\<lparr>RowModCallback := Some susesaltpillarCallback\<rparr>)
     else if Name table = ''suseimagefile'' then
       addVirtualIndex [''image_info_id'', ''file'']
         (table\<lparr>PKSequence := ''suse_image_file_id_seq''\<rparr>)
     else Inr table)"

subsection \<open>Tables of the registry, for stating its properties\<close>

text \<open>The table names that the switch of \<^verbatim>\<open>applyTableFilters\<close> has a case for.\<close>

definition registryNames :: "string list" where
  "registryNames =
     [''rhnchecksumtype'', ''rhnchecksum'', ''rhnpackagearch'', ''rhnchannelarch'',
      ''rhnpackagename'', ''rhnpackagenevra'', ''rhnpackagesource'', ''rhnpackagekey'',
      ''rhnpackageextratag'', ''rhnpackageevr'', ''rhnpackage'', ''rhnpackagechangelogdata'',
      ''rhnpackagechangelogrec'', ''rhnpackagecapability'', ''rhnconfigfiletype'',
      ''rhnconfigfile'', ''rhnconfigcontent'', ''suseimageinfo'', ''suseimageinfochannel'',
      ''suseimageprofile'', ''susekiwiprofile'', ''susedockerfileprofile'', ''rhnerrata'',
      ''susesaltpillar'', ''suseimagefile'']"

text \<open>The tables that get a virtual unique index, each with its column list.\<close>

definition virtualIndexRegistry :: "(string \<times> string list) list" where
  "virtualIndexRegistry =
     [(''rhnpackageextratag'', [''package_id'', ''key_id'']),
      (''rhnpackage'',
         [''name_id'', ''evr_id'', ''package_arch_id'', ''checksum_id'', ''org_id'']),
      (''rhnpackagechangelogdata'', [''name'', ''text'', ''time'']),
      (''rhnpackagecapability'', [''name'', ''version'']),
      (''rhnconfigfiletype'', [''label'']),
      (''rhnconfigcontent'',
         [''contents'', ''file_size'', ''checksum_id'', ''is_binary'', ''delim_start'',
          ''delim_end'', ''created'']),
      (''suseimageinfo'',
         [''name'', ''version'', ''image_type'', ''image_arch_id'', ''org_id'',
          ''curr_revision_num'']),
      (''suseimageinfochannel'', [''channel_id'', ''image_info_id'']),
      (''susekiwiprofile'', [''profile_id'']),
      (''susedockerfileprofile'', [''profile_id'', ''path'']),
      (''susesaltpillar'', [''server_id'', ''group_id'', ''org_id'', ''category'']),
      (''suseimagefile'', [''image_info_id'', ''file''])]"

text \<open>A freshly read table with no index, no reference and no callback, for examples.\<close>

definition emptyTable :: "string \<Rightarrow> Table" where
  "emptyTable n =
     \<lparr>Name = n, PKSequence = [], UniqueIndexes = Some Map.empty,
      sharedColumns = Map.empty, MainUniqueIndexName = [],
      UnexportColumns = None, References = [], RowModCallback = None\<rparr>"

text \<open>The edge that replaces an edge to \<^verbatim>\<open>rhnregtoken\<close>, and the edges to one table.\<close>

definition activationKeyRef :: Reference where
  "activationKeyRef =
     \<lparr>TableName = ''rhnactivationkey'', ColumnMapping = [''token_id'' \<mapsto> ''reg_token_id'']\<rparr>"

definition edgesTo :: "string \<Rightarrow> Reference list \<Rightarrow> Reference list" where
  "edgesTo n refs = filter (\<lambda>r. TableName r = n) refs"

text \<open>
  An image profile table that has an edge to \<^verbatim>\<open>rhnregtoken\<close> and, already, an edge to
  \<^verbatim>\<open>rhnactivationkey\<close>.
\<close>

definition retargetExample :: Table where
  "retargetExample =
     (emptyTable ''suseimageprofile'')
       \<lparr>References :=
          [\<lparr>TableName = ''rhnregtoken'', ColumnMapping = [''token_id'' \<mapsto> ''id'']\<rparr>,
           \<lparr>TableName = ''rhnactivationkey'',
            ColumnMapping = [''token_id'' \<mapsto> ''reg_token_id'']\<rparr>]\<rparr>"

text \<open>A column of a row, for examples.\<close>

definition column :: "string \<Rightarrow> string \<Rightarrow> sqlvalue \<Rightarrow> RowDataStructure" where
  "column n ty v = \<lparr>ColumnName = n, ColumnType = ty, initialValue = VNil, Value = v\<rparr>"

text \<open>
  A table \<open>rhnpackageevr\<close> whose two indexes have column slices on one array of four
  elements: the first three, and the first two.
\<close>

definition sharedEvrTable :: Table where
  "sharedEvrTable =
     (emptyTable ''rhnpackageevr'')
       \<lparr>UniqueIndexes :=
          Some [''rhn_pe_v_r_e_uq'' \<mapsto>
                  \<lparr>IndexName = ''rhn_pe_v_r_e_uq'',
                   Columns = [''version'', ''release'', ''epoch'']\<rparr>,
                ''rhn_pe_v_r_uq'' \<mapsto>
                  \<lparr>IndexName = ''rhn_pe_v_r_uq'', Columns = [''version'', ''release'']\<rparr>],
        sharedColumns :=
          [''rhn_pe_v_r_e_uq'' \<mapsto> \<lparr>arrayId = 0, offset = 0, capacity = 4\<rparr>,
           ''rhn_pe_v_r_uq'' \<mapsto> \<lparr>arrayId = 0, offset = 0, capacity = 4\<rparr>]\<rparr>"

subsection \<open>What the rewriting of the pillar is to achieve\<close>

text \<open>
  The words matched by \<^verbatim>\<open>https://[^/]+/os-images/\<close>: the scheme, a non-empty host
  without a slash, the path. An occurrence at position \<open>i\<close> of a byte string is such a
  word starting there.
\<close>

definition isUrl :: "char list \<Rightarrow> bool" where
  "isUrl m \<longleftrightarrow>
     (\<exists>host. host \<noteq> [] \<and> CHR ''/'' \<notin> set host \<and> m = ''https://'' @ host @ ''/os-images/'')"

definition occursAt :: "char list \<Rightarrow> nat \<Rightarrow> bool" where
  "occursAt bs i \<longleftrightarrow> (\<exists>n. i + n \<le> length bs \<and> isUrl (take n (drop i bs)))"

text \<open>
  \<open>rewritten bs out\<close>: \<open>out\<close> is \<open>bs\<close> with every occurrence replaced by \<open>repl\<close> and every
  other byte kept. Either \<open>bs\<close> has no occurrence and \<open>out\<close> is \<open>bs\<close>; or \<open>bs\<close> is \<open>u\<close>, an
  occurrence \<open>m\<close>, and a rest \<open>v\<close>, where no other occurrence starts before the end of \<open>m\<close>,
  and \<open>out\<close> is \<open>u\<close>, \<open>repl\<close>, and the rest rewritten.
\<close>

inductive rewritten :: "char list \<Rightarrow> char list \<Rightarrow> bool" where
  rest: "(\<forall>i. \<not> occursAt bs i) \<Longrightarrow> rewritten bs bs"
| occurrence:
    "isUrl m \<Longrightarrow>
     (\<forall>i < length u + length m. i \<noteq> length u \<longrightarrow> \<not> occursAt (u @ m @ v) i) \<Longrightarrow>
     rewritten v w \<Longrightarrow>
     rewritten (u @ m @ v) (u @ repl @ w)"

subsection \<open>What the callback of susesaltpillar expects of a row\<close>

text \<open>
  Every column named \<^verbatim>\<open>category\<close> holds a string; the row is an image pillar when one of
  them starts with \<^verbatim>\<open>Image\<close>; the column the loop selects is the last one named
  \<^verbatim>\<open>pillar\<close>, or column 0 when there is none; in an image pillar it has to hold bytes.
\<close>

definition isString :: "sqlvalue \<Rightarrow> bool" where
  "isString v = (case v of VString s \<Rightarrow> True | _ \<Rightarrow> False)"

definition isBytes :: "sqlvalue \<Rightarrow> bool" where
  "isBytes v = (case v of VBytes b \<Rightarrow> True | _ \<Rightarrow> False)"

definition categoryTyped :: "row \<Rightarrow> bool" where
  "categoryTyped value \<longleftrightarrow> (\<forall>c \<in> set value. ColumnName c = ''category'' \<longrightarrow> isString (Value c))"

definition isImageColumn :: "RowDataStructure \<Rightarrow> bool" where
  "isImageColumn c \<longleftrightarrow>
     ColumnName c = ''category'' \<and>
     (case Value c of VString s \<Rightarrow> HasPrefix s ''Image'' | _ \<Rightarrow> False)"

definition isImageRow :: "row \<Rightarrow> bool" where
  "isImageRow value \<longleftrightarrow> (\<exists>c \<in> set value. isImageColumn c)"

definition pillarIndexes :: "row \<Rightarrow> nat list" where
  "pillarIndexes value = filter (\<lambda>j. ColumnName (value ! j) = ''pillar'') [0..<length value]"

definition selectedPillar :: "row \<Rightarrow> nat" where
  "selectedPillar value = (if pillarIndexes value = [] then 0 else last (pillarIndexes value))"

definition pillarTyped :: "row \<Rightarrow> bool" where
  "pillarTyped value \<longleftrightarrow>
     categoryTyped value \<and>
     (isImageRow value \<longrightarrow> isBytes (Value (value ! selectedPillar value)))"

text \<open>A row of an image pillar with two URLs, for examples.\<close>

definition pillarRow :: row where
  "pillarRow =
     [column ''pillar'' ''bytea''
        (VBytes ''a https://old.example/os-images/x b https://h2/os-images/y''),
      column ''id'' ''int4'' (VInt 7),
      column ''category'' ''varchar'' (VString ''Image-pxe'')]"

section \<open>Properties\<close>

subsection \<open>Auxiliary facts\<close>

lemma addVirtualIndex_Some:
  "UniqueIndexes table = Some m \<Longrightarrow>
   addVirtualIndex cols table =
     Inr (table\<lparr>UniqueIndexes :=
                  Some (m(VirtualIndexName \<mapsto> \<lparr>IndexName = VirtualIndexName, Columns = cols\<rparr>)),
               sharedColumns := (sharedColumns table)(VirtualIndexName := None),
               MainUniqueIndexName := VirtualIndexName\<rparr>)"
  by (simp add: addVirtualIndex_def setUniqueIndex_def andThen_def)

lemma addVirtualIndex_None:
  "UniqueIndexes table = None \<Longrightarrow> addVirtualIndex cols table = Inl NilMapAssignment"
  by (simp add: addVirtualIndex_def setUniqueIndex_def andThen_def)

lemma rhnerrataCallback_map:
  "rhnerrataCallback value =
     map (\<lambda>r. if ColumnName r = ''severity_id'' then r\<lparr>Value := initialValue r\<rparr> else r) value"
  by (induction "value") (simp_all add: GetInitialValue_def)

lemma rhnerrataCallback_absent:
  "\<forall>c \<in> set value. ColumnName c \<noteq> ''severity_id'' \<Longrightarrow> rhnerrataCallback value = value"
  by (induction "value") simp_all

lemma retargetReferences_map:
  "retargetReferences rs acc =
     acc @ map (\<lambda>r. if TableName r = ''rhnregtoken'' then activationKeyRef else r) rs"
  by (induction rs arbitrary: acc) (simp_all add: activationKeyRef_def)

lemma retargetReferences_twice:
  "retargetReferences (retargetReferences rs []) [] = retargetReferences rs []"
  by (simp add: retargetReferences_map activationKeyRef_def cong: if_cong)

lemma rhnpackageevr_case:
  "Name table = ''rhnpackageevr'' \<Longrightarrow>
     applyTableFilters table =
       andThen (appendToIndex ''rhn_pe_v_r_e_uq'' ''type''
                  (table\<lparr>PKSequence := ''rhn_pkg_evr_seq'',
                         UnexportColumns := Some [''type'' \<mapsto> True]\<rparr>))
         (appendToIndex ''rhn_pe_v_r_uq'' ''type'')"
  by (simp add: applyTableFilters_def)

lemma appendToIndex_None:
  "UniqueIndexes table = None \<Longrightarrow> appendToIndex k x table = Inl NilMapAssignment"
  by (simp add: appendToIndex_def)

lemma appendToIndex_rest:
  assumes "appendToIndex k x table = Inr t'"
  shows "t' = table\<lparr>UniqueIndexes := UniqueIndexes t', sharedColumns := sharedColumns t'\<rparr>"
  using assms
  by (auto simp add: appendToIndex_def Let_def split: option.splits if_splits)

lemma appendToIndex_fields:
  assumes "appendToIndex k x table = Inr t'"
  shows "Name t' = Name table" "PKSequence t' = PKSequence table"
    "MainUniqueIndexName t' = MainUniqueIndexName table"
    "UnexportColumns t' = UnexportColumns table" "References t' = References table"
    "RowModCallback t' = RowModCallback table"
  using assms
  by (auto simp add: appendToIndex_def Let_def split: option.splits if_splits)

lemma appendToIndex_length:
  assumes "UniqueIndexes table = Some m"
  shows "\<exists>t' m'. appendToIndex k x table = Inr t' \<and> UniqueIndexes t' = Some m' \<and>
           (\<forall>j. length (indexColumns t' j) =
                  (if j = k then Suc (length (indexColumns table k))
                   else length (indexColumns table j)))"
  using assms
  by (auto simp add: appendToIndex_def Let_def indexColumns_def writeShared_def
        split: option.splits)

lemma appendToIndex_unshared:
  assumes "UniqueIndexes table = Some m" "sharedColumns table k = None"
  shows "appendToIndex k x table =
     Inr (table\<lparr>UniqueIndexes :=
            Some (m(k \<mapsto> \<lparr>IndexName = k, Columns = indexColumns table k @ [x]\<rparr>))\<rparr>)"
proof -
  have "(sharedColumns table)(k := None) = sharedColumns table"
    using assms(2) by (rule fun_upd_idem)
  then show ?thesis
    using assms by (simp add: appendToIndex_def Let_def split: option.splits)
qed

lemma installed_callbacks:
  assumes "applyTableFilters table = Inr table'"
  shows "RowModCallback table' = RowModCallback table \<or>
         RowModCallback table' = Some (\<lambda>value. Inr (rhnerrataCallback value)) \<or>
         RowModCallback table' = Some susesaltpillarCallback"
proof (cases "Name table = ''rhnpackageevr''")
  case True
  from assms obtain ta where a: "appendToIndex ''rhn_pe_v_r_e_uq'' ''type''
        (table\<lparr>PKSequence := ''rhn_pkg_evr_seq'',
               UnexportColumns := Some [''type'' \<mapsto> True]\<rparr>) = Inr ta"
    and b: "appendToIndex ''rhn_pe_v_r_uq'' ''type'' ta = Inr table'"
    unfolding rhnpackageevr_case[OF True] andThen_def by (auto split: sum.splits)
  from appendToIndex_fields(6)[OF a] appendToIndex_fields(6)[OF b]
  have "RowModCallback table' = RowModCallback table" by simp
  then show ?thesis by simp
next
  case False
  show ?thesis
  proof (cases "UniqueIndexes table")
    case None
    then show ?thesis using assms False
      by (auto simp add: applyTableFilters_def addVirtualIndex_None split: if_splits)
  next
    case (Some m)
    then show ?thesis using assms False
      by (auto simp add: applyTableFilters_def addVirtualIndex_Some split: if_splits)
  qed
qed

lemma indexColumns_other_fields:
  "indexColumns (table\<lparr>PKSequence := p, UnexportColumns := u\<rparr>) j = indexColumns table j"
  by (simp add: indexColumns_def)

lemma rhnpackageevr_once:
  assumes "Name table = ''rhnpackageevr''" "UniqueIndexes table = Some m"
  shows "\<exists>t1 m1. applyTableFilters table = Inr t1 \<and> Name t1 = ''rhnpackageevr'' \<and>
     UniqueIndexes t1 = Some m1 \<and>
     length (indexColumns t1 ''rhn_pe_v_r_e_uq'') =
       Suc (length (indexColumns table ''rhn_pe_v_r_e_uq'')) \<and>
     length (indexColumns t1 ''rhn_pe_v_r_uq'') =
       Suc (length (indexColumns table ''rhn_pe_v_r_uq'')) \<and>
     PKSequence t1 = ''rhn_pkg_evr_seq'' \<and>
     UnexportColumns t1 = Some [''type'' \<mapsto> True] \<and>
     MainUniqueIndexName t1 = MainUniqueIndexName table \<and>
     References t1 = References table \<and>
     RowModCallback t1 = RowModCallback table"
proof -
  let ?t0 = "table\<lparr>PKSequence := ''rhn_pkg_evr_seq'',
                    UnexportColumns := Some [''type'' \<mapsto> True]\<rparr>"
  have m0: "UniqueIndexes ?t0 = Some m" using assms(2) by simp
  from appendToIndex_length[OF m0, of "''rhn_pe_v_r_e_uq''" "''type''"]
  obtain ta ma where a: "appendToIndex ''rhn_pe_v_r_e_uq'' ''type'' ?t0 = Inr ta"
    and ma: "UniqueIndexes ta = Some ma"
    and la: "\<forall>j. length (indexColumns ta j) =
                  (if j = ''rhn_pe_v_r_e_uq'' then Suc (length (indexColumns ?t0 ''rhn_pe_v_r_e_uq''))
                   else length (indexColumns ?t0 j))"
    by blast
  from appendToIndex_length[OF ma, of "''rhn_pe_v_r_uq''" "''type''"]
  obtain t1 m1 where b: "appendToIndex ''rhn_pe_v_r_uq'' ''type'' ta = Inr t1"
    and m1: "UniqueIndexes t1 = Some m1"
    and lb: "\<forall>j. length (indexColumns t1 j) =
                  (if j = ''rhn_pe_v_r_uq'' then Suc (length (indexColumns ta ''rhn_pe_v_r_uq''))
                   else length (indexColumns ta j))"
    by blast
  have res: "applyTableFilters table = Inr t1"
    unfolding rhnpackageevr_case[OF assms(1)] a andThen_def using b by simp
  have l1: "length (indexColumns t1 ''rhn_pe_v_r_e_uq'') =
       Suc (length (indexColumns table ''rhn_pe_v_r_e_uq''))"
    using la[rule_format, of "''rhn_pe_v_r_e_uq''"] lb[rule_format, of "''rhn_pe_v_r_e_uq''"]
    by (simp add: indexColumns_other_fields)
  have l2: "length (indexColumns t1 ''rhn_pe_v_r_uq'') =
       Suc (length (indexColumns table ''rhn_pe_v_r_uq''))"
    using la[rule_format, of "''rhn_pe_v_r_uq''"] lb[rule_format, of "''rhn_pe_v_r_uq''"]
    by (simp add: indexColumns_other_fields)
  from appendToIndex_fields[OF a] appendToIndex_fields[OF b] assms(1) res l1 l2 m1
  show ?thesis by simp
qed

lemma rhnpackageevr_once_unshared:
  assumes "Name table = ''rhnpackageevr''" "UniqueIndexes table = Some m"
    and "sharedColumns table ''rhn_pe_v_r_e_uq'' = None"
    and "sharedColumns table ''rhn_pe_v_r_uq'' = None"
  shows "applyTableFilters table =
     Inr (table\<lparr>PKSequence := ''rhn_pkg_evr_seq'',
               UnexportColumns := Some [''type'' \<mapsto> True],
               UniqueIndexes :=
                 Some (m(''rhn_pe_v_r_e_uq'' \<mapsto>
                           \<lparr>IndexName = ''rhn_pe_v_r_e_uq'',
                            Columns = indexColumns table ''rhn_pe_v_r_e_uq'' @ [''type'']\<rparr>,
                         ''rhn_pe_v_r_uq'' \<mapsto>
                           \<lparr>IndexName = ''rhn_pe_v_r_uq'',
                            Columns = indexColumns table ''rhn_pe_v_r_uq'' @ [''type'']\<rparr>))\<rparr>)"
proof -
  let ?t0 = "table\<lparr>PKSequence := ''rhn_pkg_evr_seq'',
                    UnexportColumns := Some [''type'' \<mapsto> True]\<rparr>"
  let ?ma = "m(''rhn_pe_v_r_e_uq'' \<mapsto>
                 \<lparr>IndexName = ''rhn_pe_v_r_e_uq'',
                  Columns = indexColumns ?t0 ''rhn_pe_v_r_e_uq'' @ [''type'']\<rparr>)"
  let ?ta = "?t0\<lparr>UniqueIndexes := Some ?ma\<rparr>"
  have a: "appendToIndex ''rhn_pe_v_r_e_uq'' ''type'' ?t0 = Inr ?ta"
    using assms(2,3) by (intro appendToIndex_unshared) simp_all
  have b: "appendToIndex ''rhn_pe_v_r_uq'' ''type'' ?ta =
      Inr (?ta\<lparr>UniqueIndexes :=
             Some (?ma(''rhn_pe_v_r_uq'' \<mapsto>
                        \<lparr>IndexName = ''rhn_pe_v_r_uq'',
                         Columns = indexColumns ?ta ''rhn_pe_v_r_uq'' @ [''type'']\<rparr>))\<rparr>)"
    using assms(4) by (intro appendToIndex_unshared) simp_all
  have c: "indexColumns ?ta ''rhn_pe_v_r_uq'' = indexColumns table ''rhn_pe_v_r_uq''"
    using assms(2) by (simp add: indexColumns_def)
  show ?thesis
    unfolding rhnpackageevr_case[OF assms(1)] a andThen_def using b c
    by (simp add: indexColumns_other_fields)
qed

text \<open>
  On two column slices that share an array with spare capacity, the second append
  overwrites the third element of the first index.
\<close>

lemma rhnpackageevr_shared_array:
  "map_sum id (\<lambda>t. (indexColumns t ''rhn_pe_v_r_e_uq'', indexColumns t ''rhn_pe_v_r_uq''))
     (applyTableFilters sharedEvrTable) =
   Inr ([''version'', ''release'', ''type'', ''type''], [''version'', ''release'', ''type''])"
  by (simp add: sharedEvrTable_def emptyTable_def rhnpackageevr_case appendToIndex_def
        andThen_def indexColumns_def writeShared_def Let_def)

subsection \<open>The regular expression and its replacement\<close>

lemma matchHere_Some_D:
  assumes "matchHere bs = Some n"
  shows "\<exists>host tail. host \<noteq> [] \<and> CHR ''/'' \<notin> set host \<and>
           bs = ''https://'' @ host @ ''/os-images/'' @ tail \<and> n = 19 + length host"
proof -
  from assms obtain rest where bs: "bs = ''https://'' @ rest"
    by (auto simp add: matchHere_def prefix_def split: if_splits)
  define host where "host = takeWhile (\<lambda>c. c \<noteq> CHR ''/'') rest"
  define after where "after = dropWhile (\<lambda>c. c \<noteq> CHR ''/'') rest"
  have rest: "rest = host @ after" by (simp add: host_def after_def)
  have d8: "drop 8 bs = rest" by (simp add: bs)
  from assms have h: "host \<noteq> []" and p: "prefix ''/os-images/'' after"
    and n: "n = 8 + length host + 11"
    unfolding matchHere_def d8 Let_def host_def after_def
    by (auto split: if_splits)
  from p obtain tail where after: "after = ''/os-images/'' @ tail"
    by (auto simp add: prefix_def)
  have "CHR ''/'' \<notin> set host" unfolding host_def by (auto dest: set_takeWhileD)
  with h n show ?thesis using bs rest after by auto
qed

lemma matchHere_Some_I:
  assumes "host \<noteq> []" "CHR ''/'' \<notin> set host"
  shows "matchHere (''https://'' @ host @ ''/os-images/'' @ tail) = Some (19 + length host)"
proof -
  have tw: "takeWhile (\<lambda>c. c \<noteq> CHR ''/'') (host @ ''/os-images/'' @ tail) = host"
    using assms(2) by (subst takeWhile_append2) auto
  have dw: "dropWhile (\<lambda>c. c \<noteq> CHR ''/'') (host @ ''/os-images/'' @ tail) = ''/os-images/'' @ tail"
    using assms(2) by (subst dropWhile_append2) auto
  have d8: "drop 8 (''https://'' @ host @ ''/os-images/'' @ tail) = host @ ''/os-images/'' @ tail"
    by simp
  have pre: "prefix ''https://'' (''https://'' @ host @ ''/os-images/'' @ tail)"
    by (simp add: prefix_def)
  show ?thesis
    unfolding matchHere_def d8 Let_def tw dw using assms(1) pre
    by (simp add: prefix_def)
qed

lemma matchHere_iff_isUrl:
  "matchHere bs = Some n \<longleftrightarrow> n \<le> length bs \<and> isUrl (take n bs)"
proof
  assume "matchHere bs = Some n"
  from matchHere_Some_D[OF this] obtain host tail where h: "host \<noteq> []" "CHR ''/'' \<notin> set host"
    and bs: "bs = ''https://'' @ host @ ''/os-images/'' @ tail" and n: "n = 19 + length host"
    by blast
  have len: "length (''https://'' @ host @ ''/os-images/'') = n" by (simp add: n)
  have "bs = (''https://'' @ host @ ''/os-images/'') @ tail" by (simp add: bs)
  then have "take n bs = ''https://'' @ host @ ''/os-images/''"
    using len by (metis append_eq_conv_conj)
  moreover have "n \<le> length bs" by (simp add: bs n)
  ultimately show "n \<le> length bs \<and> isUrl (take n bs)"
    using h unfolding isUrl_def by blast
next
  assume a: "n \<le> length bs \<and> isUrl (take n bs)"
  then obtain host where h: "host \<noteq> []" "CHR ''/'' \<notin> set host"
    and t: "take n bs = ''https://'' @ host @ ''/os-images/''"
    unfolding isUrl_def by blast
  from t have "length (take n bs) = length (''https://'' @ host @ ''/os-images/'')"
    by (rule arg_cong)
  with a have n: "n = 19 + length host" by simp
  have "bs = take n bs @ drop n bs" by simp
  then have "bs = ''https://'' @ host @ ''/os-images/'' @ drop n bs"
    unfolding t by simp
  then show "matchHere bs = Some n" using matchHere_Some_I[OF h, of "drop n bs"] n by simp
qed

lemma not_prefix_inside_scheme:
  "0 < j \<Longrightarrow> j < 8 \<Longrightarrow> \<not> prefix ''https://'' (drop j ''https://'' @ zs)"
proof -
  have "\<forall>j<8. 0 < j \<longrightarrow> \<not> prefix ''https://'' (drop j ''https://'' @ zs)"
    by (simp add: numeral_eq_Suc All_less_Suc)
  then show "0 < j \<Longrightarrow> j < 8 \<Longrightarrow> \<not> prefix ''https://'' (drop j ''https://'' @ zs)" by blast
qed

lemma not_prefix_inside_path:
  "j < 11 \<Longrightarrow> \<not> prefix ''https://'' (drop j ''/os-images/'' @ zs)"
proof -
  have "\<forall>j<11. \<not> prefix ''https://'' (drop j ''/os-images/'' @ zs)"
    by (simp add: numeral_eq_Suc All_less_Suc)
  then show "j < 11 \<Longrightarrow> \<not> prefix ''https://'' (drop j ''/os-images/'' @ zs)" by blast
qed

lemma not_prefix_inside_host:
  assumes "h \<noteq> []" "CHR ''/'' \<notin> set h"
  shows "\<not> prefix ''https://'' (h @ ''/os-images/'' @ zs)"
proof
  assume "prefix ''https://'' (h @ ''/os-images/'' @ zs)"
  then obtain ys where eq: "h @ ''/os-images/'' @ zs = ''https://'' @ ys"
    by (auto simp add: prefix_def)
  have "takeWhile (\<lambda>c. c \<noteq> CHR ''/'') (h @ ''/os-images/'' @ zs) = h"
    using assms(2) by (subst takeWhile_append2) auto
  moreover have "takeWhile (\<lambda>c. c \<noteq> CHR ''/'') (''https://'' @ ys) = ''https:''"
    by simp
  ultimately have "h = ''https:''" using eq by simp
  with eq show False by simp
qed

lemma drop_in_front: "j \<le> length xs \<Longrightarrow> drop j (xs @ ys) = drop j xs @ ys"
  by simp

lemma drop_past_front: "length xs \<le> j \<Longrightarrow> drop j (xs @ ys) = drop (j - length xs) ys"
  by simp

lemma matches_do_not_overlap:
  assumes "matchHere bs = Some n" "0 < j" "j < n"
  shows "matchHere (drop j bs) = None"
proof -
  from matchHere_Some_D[OF assms(1)] obtain host tail where h: "host \<noteq> []" "CHR ''/'' \<notin> set host"
    and bs: "bs = ''https://'' @ host @ ''/os-images/'' @ tail" and n: "n = 19 + length host"
    by blast
  have l8: "length ''https://'' = 8" and l11: "length ''/os-images/'' = 11" by simp_all
  have "\<not> prefix ''https://'' (drop j bs)"
  proof -
    consider "j < 8" | "8 \<le> j" "j < 8 + length host" | "8 + length host \<le> j" by linarith
    then show ?thesis
    proof cases
      case 1
      then have "j \<le> length ''https://''" unfolding l8 by simp
      then have d: "drop j bs = drop j ''https://'' @ host @ ''/os-images/'' @ tail"
        unfolding bs by (rule drop_in_front)
      show ?thesis unfolding d by (rule not_prefix_inside_scheme[OF assms(2) 1])
    next
      case 2
      then have "length ''https://'' \<le> j" unfolding l8 by simp
      then have "drop j bs = drop (j - length ''https://'') (host @ ''/os-images/'' @ tail)"
        unfolding bs by (rule drop_past_front)
      also have "\<dots> = drop (j - 8) (host @ ''/os-images/'' @ tail)" unfolding l8 ..
      also have "\<dots> = drop (j - 8) host @ ''/os-images/'' @ tail"
        using 2 by (intro drop_in_front) simp
      finally have d: "drop j bs = drop (j - 8) host @ ''/os-images/'' @ tail" .
      have "drop (j - 8) host \<noteq> []" using 2 by simp
      moreover have "CHR ''/'' \<notin> set (drop (j - 8) host)"
        using h(2) by (auto dest: in_set_dropD)
      ultimately show ?thesis unfolding d by (rule not_prefix_inside_host)
    next
      case 3
      then have "length ''https://'' \<le> j" unfolding l8 by simp
      then have "drop j bs = drop (j - length ''https://'') (host @ ''/os-images/'' @ tail)"
        unfolding bs by (rule drop_past_front)
      also have "\<dots> = drop (j - 8) (host @ ''/os-images/'' @ tail)" unfolding l8 ..
      also have "\<dots> = drop (j - 8 - length host) (''/os-images/'' @ tail)"
        using 3 by (intro drop_past_front) simp
      also have "\<dots> = drop (j - 8 - length host) ''/os-images/'' @ tail"
        using 3 assms(3) n unfolding l11 [symmetric] by (intro drop_in_front) (simp add: l11)
      finally have d: "drop j bs = drop (j - 8 - length host) ''/os-images/'' @ tail" .
      have "j - 8 - length host < 11" using 3 assms(3) n by simp
      then show ?thesis unfolding d by (rule not_prefix_inside_path)
    qed
  qed
  then show ?thesis by (simp add: matchHere_def)
qed

lemma matchHere_Nil: "matchHere [] = None"
  by (simp add: matchHere_def)

lemma ReplaceAll_match:
  assumes "matchHere bs = Some n"
  shows "ReplaceAll bs = repl @ ReplaceAll (drop n bs)"
proof (cases bs)
  case Nil
  with assms show ?thesis by (simp add: matchHere_Nil)
next
  case (Cons c cs)
  from matchHere_Some_D[OF assms] have "0 < n" by auto
  then have "drop (n - 1) cs = drop n (c # cs)" by (cases n) simp_all
  with assms Cons show ?thesis by simp
qed

lemma ReplaceAll_no_match_prefix:
  "(\<forall>i < length u. matchHere (drop i (u @ bs)) = None) \<Longrightarrow>
     ReplaceAll (u @ bs) = u @ ReplaceAll bs"
proof (induction u)
  case Nil
  then show ?case by simp
next
  case (Cons c u)
  from Cons.prems have "matchHere (drop 0 ((c # u) @ bs)) = None" by blast
  then have here: "matchHere (c # u @ bs) = None" by simp
  have "\<forall>i < length u. matchHere (drop i (u @ bs)) = None"
  proof (intro allI impI)
    fix i assume "i < length u"
    then have "Suc i < length (c # u)" by simp
    with Cons.prems have "matchHere (drop (Suc i) ((c # u) @ bs)) = None" by blast
    then show "matchHere (drop i (u @ bs)) = None" by simp
  qed
  with Cons.IH here show ?case by simp
qed

lemma ReplaceAll_no_match:
  assumes "\<forall>i. matchHere (drop i bs) = None"
  shows "ReplaceAll bs = bs"
proof -
  from assms have "\<forall>i < length bs. matchHere (drop i (bs @ [])) = None" by simp
  from ReplaceAll_no_match_prefix[OF this] show ?thesis by simp
qed

lemma occursAt_iff_matchHere: "occursAt bs i \<longleftrightarrow> matchHere (drop i bs) \<noteq> None"
proof
  assume "occursAt bs i"
  then obtain n where "i + n \<le> length bs" "isUrl (take n (drop i bs))"
    unfolding occursAt_def by blast
  then have "n \<le> length (drop i bs) \<and> isUrl (take n (drop i bs))" by simp
  then have "matchHere (drop i bs) = Some n" by (simp only: matchHere_iff_isUrl)
  then show "matchHere (drop i bs) \<noteq> None" by simp
next
  assume "matchHere (drop i bs) \<noteq> None"
  then obtain n where m: "matchHere (drop i bs) = Some n" by blast
  then have a: "n \<le> length (drop i bs)" "isUrl (take n (drop i bs))"
    by (simp_all only: matchHere_iff_isUrl)
  from matchHere_Some_D[OF m] have "0 < n" by auto
  with a(1) have "i + n \<le> length bs" by simp
  with a(2) show "occursAt bs i" unfolding occursAt_def by blast
qed

lemma ReplaceAll_rewritten: "rewritten bs (ReplaceAll bs)"
proof (induction bs rule: length_induct)
  case (1 bs)
  show ?case
  proof (cases "\<forall>i. matchHere (drop i bs) = None")
    case True
    then have "\<forall>i. \<not> occursAt bs i" by (simp add: occursAt_iff_matchHere)
    then have "rewritten bs bs" by (rule rewritten.rest)
    then show ?thesis using ReplaceAll_no_match[OF True] by simp
  next
    case False
    define i where "i = (LEAST i. matchHere (drop i bs) \<noteq> None)"
    from False have ex: "\<exists>i. matchHere (drop i bs) \<noteq> None" by blast
    from LeastI_ex[OF ex] have mi: "matchHere (drop i bs) \<noteq> None" unfolding i_def .
    have least: "matchHere (drop j bs) = None" if "j < i" for j
      using not_less_Least[of j "\<lambda>i. matchHere (drop i bs) \<noteq> None"] that unfolding i_def by blast
    from mi obtain n where n: "matchHere (drop i bs) = Some n" by blast
    then have nlen: "n \<le> length (drop i bs)" and url: "isUrl (take n (drop i bs))"
      by (simp_all only: matchHere_iff_isUrl)
    from matchHere_Some_D[OF n] have npos: "0 < n" by auto
    have ilen: "i < length bs" using nlen npos by simp
    define u where "u = take i bs"
    define m where "m = take n (drop i bs)"
    define v where "v = drop n (drop i bs)"
    have lu: "length u = i" using ilen by (simp add: u_def)
    have lm: "length m = n" using nlen by (simp add: m_def)
    have mv: "drop i bs = m @ v" unfolding m_def v_def by (rule append_take_drop_id [symmetric])
    have bs: "bs = u @ m @ v" unfolding mv[symmetric] u_def by simp
    have "length v < length bs" using npos nlen ilen by (simp add: v_def)
    with 1 have IH: "rewritten v (ReplaceAll v)" by blast
    have before: "\<forall>j < length u. matchHere (drop j (u @ m @ v)) = None"
      using least lu bs by simp
    have "ReplaceAll bs = u @ ReplaceAll (m @ v)"
      using ReplaceAll_no_match_prefix[OF before] bs by simp
    also have "ReplaceAll (m @ v) = repl @ ReplaceAll v"
      using ReplaceAll_match[OF n] lm unfolding mv by simp
    finally have out: "ReplaceAll bs = u @ repl @ ReplaceAll v" .
    have only: "\<forall>j < length u + length m. j \<noteq> length u \<longrightarrow> \<not> occursAt (u @ m @ v) j"
    proof (intro allI impI)
      fix j assume j: "j < length u + length m" "j \<noteq> length u"
      show "\<not> occursAt (u @ m @ v) j"
      proof (cases "j < i")
        case True
        then show ?thesis using least bs by (simp add: occursAt_iff_matchHere)
      next
        case False
        with j lu lm have "0 < j - i" "j - i < n" by simp_all
        from matches_do_not_overlap[OF n this] have "matchHere (drop (j - i) (drop i bs)) = None" .
        moreover have "drop (j - i) (drop i bs) = drop j bs" using False by simp
        ultimately show ?thesis using bs by (simp add: occursAt_iff_matchHere)
      qed
    qed
    have "rewritten (u @ m @ v) (u @ repl @ ReplaceAll v)"
      using url only IH unfolding m_def[symmetric] by (rule rewritten.occurrence)
    then show ?thesis using bs out by simp
  qed
qed

lemma rewritten_unique:
  "rewritten bs out \<Longrightarrow> out = ReplaceAll bs"
proof (induction rule: rewritten.induct)
  case (rest bs)
  then have "\<forall>i. matchHere (drop i bs) = None" by (simp add: occursAt_iff_matchHere)
  from ReplaceAll_no_match[OF this] show ?case by simp
next
  case (occurrence m u v w)
  have before: "\<forall>j < length u. matchHere (drop j (u @ m @ v)) = None"
  proof (intro allI impI)
    fix j assume j: "j < length u"
    then have "j < length u + length m" "j \<noteq> length u" by simp_all
    with occurrence(2) have "\<not> occursAt (u @ m @ v) j" by blast
    then show "matchHere (drop j (u @ m @ v)) = None" by (simp add: occursAt_iff_matchHere)
  qed
  have "length m \<le> length (m @ v) \<and> isUrl (take (length m) (m @ v))"
    using occurrence(1) by simp
  then have "matchHere (m @ v) = Some (length m)" by (simp only: matchHere_iff_isUrl)
  from ReplaceAll_match[OF this] have "ReplaceAll (m @ v) = repl @ ReplaceAll v" by simp
  with ReplaceAll_no_match_prefix[OF before] occurrence.IH show ?case by simp
qed

subsection \<open>The loop of the susesaltpillar callback\<close>

lemma pillarIndexes_Cons:
  "pillarIndexes (c # cs) =
     (if ColumnName c = ''pillar'' then [0] else []) @ map Suc (pillarIndexes cs)"
proof -
  have "[0..<length (c # cs)] = 0 # map Suc [0..<length cs]"
    by (simp add: upt_conv_Cons map_Suc_upt del: upt_Suc)
  then show ?thesis
    by (simp add: pillarIndexes_def filter_map comp_def del: upt_Suc)
qed

lemma selectedPillar_Cons:
  "selectedPillar (c # cs) =
     (if pillarIndexes cs = [] then 0 else Suc (selectedPillar cs))"
  by (simp add: selectedPillar_def pillarIndexes_Cons last_map)

lemma pillarScan_untyped:
  "\<not> categoryTyped value \<Longrightarrow> pillarScan value i b p = Inl TypeAssertion"
proof (induction "value" arbitrary: i b p)
  case Nil
  then show ?case by (simp add: categoryTyped_def)
next
  case (Cons c cs)
  show ?case
  proof (cases "ColumnName c = ''category'' \<and> \<not> isString (Value c)")
    case True
    then show ?thesis by (simp add: isString_def split: sqlvalue.splits)
  next
    case False
    with Cons.prems have "\<not> categoryTyped cs" by (auto simp add: categoryTyped_def)
    from Cons.IH[OF this] False show ?thesis
      by (simp add: isString_def split: sqlvalue.splits)
  qed
qed

lemma pillarScan_typed:
  "categoryTyped value \<Longrightarrow>
     pillarScan value i b p =
       Inr (b \<or> isImageRow value,
            if pillarIndexes value = [] then p else i + last (pillarIndexes value))"
proof (induction "value" arbitrary: i b p)
  case Nil
  then show ?case by (simp add: isImageRow_def pillarIndexes_def)
next
  case (Cons c cs)
  from Cons.prems have typed: "categoryTyped cs"
    and here: "ColumnName c = ''category'' \<longrightarrow> isString (Value c)"
    by (simp_all add: categoryTyped_def)
  have img: "isImageRow (c # cs) \<longleftrightarrow> isImageColumn c \<or> isImageRow cs"
    by (simp add: isImageRow_def)
  show ?case
    using here
    by (auto simp add: Cons.IH[OF typed] img isImageColumn_def isString_def pillarIndexes_Cons
          last_map split: sqlvalue.splits)
qed

lemma selectedPillar_less:
  assumes "value \<noteq> []"
  shows "selectedPillar value < length value"
proof (cases "pillarIndexes value = []")
  case True
  with assms show ?thesis by (simp add: selectedPillar_def)
next
  case False
  then have "last (pillarIndexes value) \<in> set (pillarIndexes value)" by simp
  then have "last (pillarIndexes value) < length value" by (simp add: pillarIndexes_def)
  with False show ?thesis by (simp add: selectedPillar_def)
qed

lemma pillarScan_start:
  "categoryTyped value \<Longrightarrow>
     pillarScan value 0 False 0 = Inr (isImageRow value, selectedPillar value)"
  by (simp add: pillarScan_typed selectedPillar_def)

lemma susesaltpillarCallback_typed:
  assumes "categoryTyped value"
  shows "susesaltpillarCallback value =
     (if isImageRow value then
        (case Value (value ! selectedPillar value) of
           VBytes b \<Rightarrow> Inr (value[selectedPillar value :=
                      (value ! selectedPillar value)\<lparr>Value := VBytes (ReplaceAll b)\<rparr>])
         | _ \<Rightarrow> Inl TypeAssertion)
      else Inr value)"
proof (cases "isImageRow value")
  case False
  then show ?thesis
    unfolding susesaltpillarCallback_def pillarScan_start[OF assms] by simp
next
  case True
  then have "value \<noteq> []" by (auto simp add: isImageRow_def)
  from selectedPillar_less[OF this] True show ?thesis
    unfolding susesaltpillarCallback_def pillarScan_start[OF assms] by simp
qed

lemma filter_upt_single:
  assumes "p < n" and "\<forall>j<n. P j \<longleftrightarrow> j = p"
  shows "filter P [0..<n] = [p]"
proof -
  have "filter P [0..<n] = filter (\<lambda>j. j = p) [0..<n]"
    using assms(2) by (intro filter_cong) auto
  also have "\<dots> = [p]" using assms(1)
    by (induction n) (auto simp add: filter_empty_conv less_Suc_eq)
  finally show ?thesis .
qed

lemma distinct_names_index:
  assumes "distinct (map ColumnName value)" "j < length value" "k < length value"
    and "ColumnName (value ! j) = ColumnName (value ! k)"
  shows "j = k"
proof -
  from assms(2,3,4) have "map ColumnName value ! j = map ColumnName value ! k" by simp
  moreover have "(map ColumnName value ! j = map ColumnName value ! k) = (j = k)"
    using assms(1) by (rule nth_eq_iff_index_eq) (simp_all add: assms(2,3))
  ultimately show ?thesis by simp
qed

lemma unique_column:
  assumes "distinct (map ColumnName value)" "c < length value" "x \<in> set value"
    and "ColumnName x = ColumnName (value ! c)"
  shows "x = value ! c"
proof -
  from assms(3) obtain j where j: "j < length value" "value ! j = x"
    unfolding in_set_conv_nth by blast
  from assms(4) j(2) have "ColumnName (value ! j) = ColumnName (value ! c)" by simp
  from distinct_names_index[OF assms(1) j(1) assms(2) this] j(2) show ?thesis by simp
qed

lemma indexes_of_unique_column:
  assumes "distinct (map ColumnName value)" "p < length value"
  shows "filter (\<lambda>j. ColumnName (value ! j) = ColumnName (value ! p)) [0..<length value] = [p]"
proof (rule filter_upt_single[OF assms(2)], intro allI impI iffI)
  fix j assume "j < length value" "ColumnName (value ! j) = ColumnName (value ! p)"
  then show "j = p" using distinct_names_index[OF assms(1) _ assms(2)] by blast
next
  fix j assume "j = p"
  then show "ColumnName (value ! j) = ColumnName (value ! p)" by simp
qed

subsection \<open>Virtual unique indexes\<close>

text \<open>
  Claim C1. For every table of the registry that gets a virtual unique index, and every
  input table of that name whose index map is allocated, \<open>applyTableFilters\<close> returns a
  table whose \<open>MainUniqueIndexName\<close> is the reserved name \<open>virtual_main_unique_index\<close>,
  and whose \<open>UniqueIndexes\<close> map has that name as a key, bound to an index of that same
  name with the column list of the registry entry.
\<close>

theorem virtual_index_installed:
  assumes "(n, cols) \<in> set virtualIndexRegistry" and "Name table = n"
    and "UniqueIndexes table = Some m"
  shows "\<exists>table' m'. applyTableFilters table = Inr table' \<and>
           MainUniqueIndexName table' = ''virtual_main_unique_index'' \<and>
           UniqueIndexes table' = Some m' \<and>
           m' ''virtual_main_unique_index'' =
             Some \<lparr>IndexName = ''virtual_main_unique_index'', Columns = cols\<rparr>"
proof -
  from assms(1) have
     "(n, cols) = (''rhnpackageextratag'', [''package_id'', ''key_id'']) \<or>
      (n, cols) = (''rhnpackage'',
         [''name_id'', ''evr_id'', ''package_arch_id'', ''checksum_id'', ''org_id'']) \<or>
      (n, cols) = (''rhnpackagechangelogdata'', [''name'', ''text'', ''time'']) \<or>
      (n, cols) = (''rhnpackagecapability'', [''name'', ''version'']) \<or>
      (n, cols) = (''rhnconfigfiletype'', [''label'']) \<or>
      (n, cols) = (''rhnconfigcontent'',
         [''contents'', ''file_size'', ''checksum_id'', ''is_binary'', ''delim_start'',
          ''delim_end'', ''created'']) \<or>
      (n, cols) = (''suseimageinfo'',
         [''name'', ''version'', ''image_type'', ''image_arch_id'', ''org_id'',
          ''curr_revision_num'']) \<or>
      (n, cols) = (''suseimageinfochannel'', [''channel_id'', ''image_info_id'']) \<or>
      (n, cols) = (''susekiwiprofile'', [''profile_id'']) \<or>
      (n, cols) = (''susedockerfileprofile'', [''profile_id'', ''path'']) \<or>
      (n, cols) = (''susesaltpillar'', [''server_id'', ''group_id'', ''org_id'', ''category'']) \<or>
      (n, cols) = (''suseimagefile'', [''image_info_id'', ''file''])"
    unfolding virtualIndexRegistry_def by (simp only: list.set insert_iff empty_iff simp_thms)
  then show ?thesis
    using assms(2,3)
    by (elim disjE)
       (simp_all add: applyTableFilters_def addVirtualIndex_Some VirtualIndexName_def)
qed

theorem virtual_index_installed_witness:
  "\<exists>table' m'. applyTableFilters (emptyTable ''rhnpackagecapability'') = Inr table' \<and>
     MainUniqueIndexName table' = ''virtual_main_unique_index'' \<and>
     UniqueIndexes table' = Some m' \<and>
     m' ''virtual_main_unique_index'' =
       Some \<lparr>IndexName = ''virtual_main_unique_index'', Columns = [''name'', ''version'']\<rparr>"
proof -
  have a: "(''rhnpackagecapability'', [''name'', ''version'']) \<in> set virtualIndexRegistry"
    by (simp add: virtualIndexRegistry_def)
  have b: "Name (emptyTable ''rhnpackagecapability'') = ''rhnpackagecapability''"
    by (simp add: emptyTable_def)
  have c: "UniqueIndexes (emptyTable ''rhnpackagecapability'') = Some Map.empty"
    by (simp add: emptyTable_def)
  show ?thesis by (rule virtual_index_installed [OF a b c])
qed

subsection \<open>Tables without a case\<close>

text \<open>
  Claim C7. For every input table whose name is not one of the names of the switch,
  \<open>applyTableFilters\<close> returns the input table, equal in every field.
\<close>

theorem unregistered_table_unchanged:
  "Name table \<notin> set registryNames \<Longrightarrow> applyTableFilters table = Inr table"
  by (simp add: applyTableFilters_def registryNames_def)

theorem unregistered_table_unchanged_witness:
  "applyTableFilters (emptyTable ''rhnchannel'') = Inr (emptyTable ''rhnchannel'')"
proof -
  have a: "Name (emptyTable ''rhnchannel'') \<notin> set registryNames"
    by (simp add: emptyTable_def registryNames_def)
  show ?thesis by (rule unregistered_table_unchanged [OF a])
qed

subsection \<open>The pinned index of rhnerrata\<close>

text \<open>
  Claim C8. For a table named \<open>rhnerrata\<close>, \<open>applyTableFilters\<close> returns a table whose
  \<open>MainUniqueIndexName\<close> is the literal \<open>rhn_errata_adv_org_uq\<close> and whose
  \<open>UniqueIndexes\<close> map is the input's: no virtual index is added. The result is a
  function of the input alone.
\<close>

theorem rhnerrata_main_index_pinned:
  "Name table = ''rhnerrata'' \<Longrightarrow>
     (\<exists>table'. applyTableFilters table = Inr table' \<and>
        MainUniqueIndexName table' = ''rhn_errata_adv_org_uq'' \<and>
        UniqueIndexes table' = UniqueIndexes table)"
  by (simp add: applyTableFilters_def)

theorem rhnerrata_main_index_pinned_witness:
  "\<exists>table'. applyTableFilters (emptyTable ''rhnerrata'') = Inr table' \<and>
     MainUniqueIndexName table' = ''rhn_errata_adv_org_uq'' \<and>
     UniqueIndexes table' = UniqueIndexes (emptyTable ''rhnerrata'')"
proof -
  have a: "Name (emptyTable ''rhnerrata'') = ''rhnerrata''"
    by (simp add: emptyTable_def)
  show ?thesis by (rule rhnerrata_main_index_pinned [OF a])
qed

subsection \<open>Applying the filters twice\<close>

text \<open>
  Claim C2, as stated, fails for \<open>rhnpackageevr\<close>: that case appends \<open>type\<close> to the
  column lists of two existing indexes, so a second application appends it again. On a
  table of that name with an allocated, empty index map, two applications differ from one.
\<close>

theorem idempotence_counterexample:
  "andThen (applyTableFilters (emptyTable ''rhnpackageevr'')) applyTableFilters
     \<noteq> applyTableFilters (emptyTable ''rhnpackageevr'')"
proof
  assume "andThen (applyTableFilters (emptyTable ''rhnpackageevr'')) applyTableFilters
     = applyTableFilters (emptyTable ''rhnpackageevr'')"
  then have "map_sum id (\<lambda>t. indexColumns t ''rhn_pe_v_r_uq'')
               (andThen (applyTableFilters (emptyTable ''rhnpackageevr'')) applyTableFilters)
           = map_sum id (\<lambda>t. indexColumns t ''rhn_pe_v_r_uq'')
               (applyTableFilters (emptyTable ''rhnpackageevr''))"
    by simp
  then show False
    by (simp add: applyTableFilters_def andThen_def appendToIndex_def indexColumns_def
          emptyTable_def Let_def)
qed

text \<open>
  Claim C2, amended. For every table whose name is not \<open>rhnpackageevr\<close>, applying
  \<open>applyTableFilters\<close> twice gives the result of applying it once (the same table, or the
  same panic). For a table named \<open>rhnpackageevr\<close> with an allocated index map, both
  applications return, and each makes the column lists of the indexes \<open>rhn_pe_v_r_e_uq\<close>
  and \<open>rhn_pe_v_r_uq\<close> one element longer, so the second result is not the first; the
  two differ in no field but the index map and the storage of its column slices. When
  neither of the two column slices shares its backing array with another entry of the
  map, the first application appends \<open>type\<close> to both column lists and the second appends
  it once more.
\<close>

theorem idempotent_except_rhnpackageevr:
  "(Name table \<noteq> ''rhnpackageevr'' \<longrightarrow>
      andThen (applyTableFilters table) applyTableFilters = applyTableFilters table) \<and>
   (Name table = ''rhnpackageevr'' \<and> UniqueIndexes table = Some m \<longrightarrow>
      (\<exists>t1 t2. applyTableFilters table = Inr t1 \<and> applyTableFilters t1 = Inr t2 \<and>
         length (indexColumns t1 ''rhn_pe_v_r_e_uq'') =
           length (indexColumns table ''rhn_pe_v_r_e_uq'') + 1 \<and>
         length (indexColumns t2 ''rhn_pe_v_r_e_uq'') =
           length (indexColumns table ''rhn_pe_v_r_e_uq'') + 2 \<and>
         length (indexColumns t1 ''rhn_pe_v_r_uq'') =
           length (indexColumns table ''rhn_pe_v_r_uq'') + 1 \<and>
         length (indexColumns t2 ''rhn_pe_v_r_uq'') =
           length (indexColumns table ''rhn_pe_v_r_uq'') + 2 \<and>
         t2 \<noteq> t1 \<and>
         t2 = t1\<lparr>UniqueIndexes := UniqueIndexes t2, sharedColumns := sharedColumns t2\<rparr> \<and>
         (sharedColumns table ''rhn_pe_v_r_e_uq'' = None \<and>
          sharedColumns table ''rhn_pe_v_r_uq'' = None \<longrightarrow>
            indexColumns t1 ''rhn_pe_v_r_e_uq'' =
              indexColumns table ''rhn_pe_v_r_e_uq'' @ [''type''] \<and>
            indexColumns t2 ''rhn_pe_v_r_e_uq'' =
              indexColumns table ''rhn_pe_v_r_e_uq'' @ [''type'', ''type''] \<and>
            indexColumns t1 ''rhn_pe_v_r_uq'' =
              indexColumns table ''rhn_pe_v_r_uq'' @ [''type''] \<and>
            indexColumns t2 ''rhn_pe_v_r_uq'' =
              indexColumns table ''rhn_pe_v_r_uq'' @ [''type'', ''type''] \<and>
            t2 = t1\<lparr>UniqueIndexes := UniqueIndexes t2\<rparr>)))"
proof (intro conjI impI)
  assume other: "Name table \<noteq> ''rhnpackageevr''"
  show "andThen (applyTableFilters table) applyTableFilters = applyTableFilters table"
  proof (cases "UniqueIndexes table")
    case None
    with other show ?thesis
      by (simp add: applyTableFilters_def andThen_def addVirtualIndex_None
            retargetReferences_twice)
  next
    case (Some m)
    with other show ?thesis
      by (simp add: applyTableFilters_def andThen_def addVirtualIndex_Some
            retargetReferences_twice)
  qed
next
  assume "Name table = ''rhnpackageevr'' \<and> UniqueIndexes table = Some m"
  then have n: "Name table = ''rhnpackageevr''" and m: "UniqueIndexes table = Some m"
    by simp_all
  from rhnpackageevr_once[OF n m] obtain t1 m1 where
    r1: "applyTableFilters table = Inr t1" and n1: "Name t1 = ''rhnpackageevr''"
    and m1: "UniqueIndexes t1 = Some m1"
    and l1: "length (indexColumns t1 ''rhn_pe_v_r_e_uq'') =
               Suc (length (indexColumns table ''rhn_pe_v_r_e_uq''))"
            "length (indexColumns t1 ''rhn_pe_v_r_uq'') =
               Suc (length (indexColumns table ''rhn_pe_v_r_uq''))"
    and f1: "PKSequence t1 = ''rhn_pkg_evr_seq''"
            "UnexportColumns t1 = Some [''type'' \<mapsto> True]"
    by blast
  from rhnpackageevr_once[OF n1 m1] obtain t2 m2 where
    r2: "applyTableFilters t1 = Inr t2" and n2: "Name t2 = ''rhnpackageevr''"
    and l2: "length (indexColumns t2 ''rhn_pe_v_r_e_uq'') =
               Suc (length (indexColumns t1 ''rhn_pe_v_r_e_uq''))"
            "length (indexColumns t2 ''rhn_pe_v_r_uq'') =
               Suc (length (indexColumns t1 ''rhn_pe_v_r_uq''))"
    and f2: "PKSequence t2 = ''rhn_pkg_evr_seq''"
            "UnexportColumns t2 = Some [''type'' \<mapsto> True]"
            "MainUniqueIndexName t2 = MainUniqueIndexName t1"
            "References t2 = References t1"
            "RowModCallback t2 = RowModCallback t1"
    by blast
  have differ: "t2 \<noteq> t1"
  proof
    assume "t2 = t1"
    with l2(1) show False by simp
  qed
  have rest: "t2 = t1\<lparr>UniqueIndexes := UniqueIndexes t2, sharedColumns := sharedColumns t2\<rparr>"
    by (rule Table.equality) (simp_all add: n1 n2 f1 f2)
  have exact: "indexColumns t1 ''rhn_pe_v_r_e_uq'' =
              indexColumns table ''rhn_pe_v_r_e_uq'' @ [''type''] \<and>
            indexColumns t2 ''rhn_pe_v_r_e_uq'' =
              indexColumns table ''rhn_pe_v_r_e_uq'' @ [''type'', ''type''] \<and>
            indexColumns t1 ''rhn_pe_v_r_uq'' =
              indexColumns table ''rhn_pe_v_r_uq'' @ [''type''] \<and>
            indexColumns t2 ''rhn_pe_v_r_uq'' =
              indexColumns table ''rhn_pe_v_r_uq'' @ [''type'', ''type''] \<and>
            t2 = t1\<lparr>UniqueIndexes := UniqueIndexes t2\<rparr>"
    if u: "sharedColumns table ''rhn_pe_v_r_e_uq'' = None \<and>
           sharedColumns table ''rhn_pe_v_r_uq'' = None"
  proof -
    from u have u1: "sharedColumns table ''rhn_pe_v_r_e_uq'' = None"
      and u2: "sharedColumns table ''rhn_pe_v_r_uq'' = None" by simp_all
    from rhnpackageevr_once_unshared[OF n m u1 u2] r1
    have t1: "t1 = table\<lparr>PKSequence := ''rhn_pkg_evr_seq'',
               UnexportColumns := Some [''type'' \<mapsto> True],
               UniqueIndexes :=
                 Some (m(''rhn_pe_v_r_e_uq'' \<mapsto>
                           \<lparr>IndexName = ''rhn_pe_v_r_e_uq'',
                            Columns = indexColumns table ''rhn_pe_v_r_e_uq'' @ [''type'']\<rparr>,
                         ''rhn_pe_v_r_uq'' \<mapsto>
                           \<lparr>IndexName = ''rhn_pe_v_r_uq'',
                            Columns = indexColumns table ''rhn_pe_v_r_uq'' @ [''type'']\<rparr>))\<rparr>"
      by simp
    have s1: "sharedColumns t1 = sharedColumns table" by (simp add: t1)
    have c1: "indexColumns t1 ''rhn_pe_v_r_e_uq'' =
                indexColumns table ''rhn_pe_v_r_e_uq'' @ [''type'']"
             "indexColumns t1 ''rhn_pe_v_r_uq'' =
                indexColumns table ''rhn_pe_v_r_uq'' @ [''type'']"
      by (simp_all add: t1 indexColumns_def)
    from rhnpackageevr_once_unshared[OF n1 m1] u1 u2 s1 r2
    have t2: "t2 = t1\<lparr>PKSequence := ''rhn_pkg_evr_seq'',
               UnexportColumns := Some [''type'' \<mapsto> True],
               UniqueIndexes :=
                 Some (m1(''rhn_pe_v_r_e_uq'' \<mapsto>
                           \<lparr>IndexName = ''rhn_pe_v_r_e_uq'',
                            Columns = indexColumns t1 ''rhn_pe_v_r_e_uq'' @ [''type'']\<rparr>,
                         ''rhn_pe_v_r_uq'' \<mapsto>
                           \<lparr>IndexName = ''rhn_pe_v_r_uq'',
                            Columns = indexColumns t1 ''rhn_pe_v_r_uq'' @ [''type'']\<rparr>))\<rparr>"
      by simp
    have s2: "sharedColumns t2 = sharedColumns t1" by (subst t2) simp
    have c2: "indexColumns t2 ''rhn_pe_v_r_e_uq'' =
                indexColumns t1 ''rhn_pe_v_r_e_uq'' @ [''type'']"
             "indexColumns t2 ''rhn_pe_v_r_uq'' =
                indexColumns t1 ''rhn_pe_v_r_uq'' @ [''type'']"
      by (subst t2, simp add: indexColumns_def)+
    from rest s2 have "t2 = t1\<lparr>UniqueIndexes := UniqueIndexes t2\<rparr>" by simp
    with c1 c2 show ?thesis by simp
  qed
  from r1 r2 l1 l2 differ rest exact
  show "\<exists>t1 t2. applyTableFilters table = Inr t1 \<and> applyTableFilters t1 = Inr t2 \<and>
         length (indexColumns t1 ''rhn_pe_v_r_e_uq'') =
           length (indexColumns table ''rhn_pe_v_r_e_uq'') + 1 \<and>
         length (indexColumns t2 ''rhn_pe_v_r_e_uq'') =
           length (indexColumns table ''rhn_pe_v_r_e_uq'') + 2 \<and>
         length (indexColumns t1 ''rhn_pe_v_r_uq'') =
           length (indexColumns table ''rhn_pe_v_r_uq'') + 1 \<and>
         length (indexColumns t2 ''rhn_pe_v_r_uq'') =
           length (indexColumns table ''rhn_pe_v_r_uq'') + 2 \<and>
         t2 \<noteq> t1 \<and>
         t2 = t1\<lparr>UniqueIndexes := UniqueIndexes t2, sharedColumns := sharedColumns t2\<rparr> \<and>
         (sharedColumns table ''rhn_pe_v_r_e_uq'' = None \<and>
          sharedColumns table ''rhn_pe_v_r_uq'' = None \<longrightarrow>
            indexColumns t1 ''rhn_pe_v_r_e_uq'' =
              indexColumns table ''rhn_pe_v_r_e_uq'' @ [''type''] \<and>
            indexColumns t2 ''rhn_pe_v_r_e_uq'' =
              indexColumns table ''rhn_pe_v_r_e_uq'' @ [''type'', ''type''] \<and>
            indexColumns t1 ''rhn_pe_v_r_uq'' =
              indexColumns table ''rhn_pe_v_r_uq'' @ [''type''] \<and>
            indexColumns t2 ''rhn_pe_v_r_uq'' =
              indexColumns table ''rhn_pe_v_r_uq'' @ [''type'', ''type''] \<and>
            t2 = t1\<lparr>UniqueIndexes := UniqueIndexes t2\<rparr>)"
    by (intro exI [of _ t1] exI [of _ t2]) simp
qed

theorem idempotent_except_rhnpackageevr_witness:
  "andThen (applyTableFilters (emptyTable ''rhnpackage'')) applyTableFilters
     = applyTableFilters (emptyTable ''rhnpackage'') \<and>
   (\<exists>t1 t2. applyTableFilters (emptyTable ''rhnpackageevr'') = Inr t1 \<and>
      applyTableFilters t1 = Inr t2 \<and> t2 \<noteq> t1 \<and>
      indexColumns t1 ''rhn_pe_v_r_e_uq'' = [''type''] \<and>
      indexColumns t2 ''rhn_pe_v_r_e_uq'' = [''type'', ''type'']) \<and>
   (\<exists>t1 t2. applyTableFilters sharedEvrTable = Inr t1 \<and>
      applyTableFilters t1 = Inr t2 \<and> t2 \<noteq> t1 \<and>
      length (indexColumns t1 ''rhn_pe_v_r_e_uq'') = 4 \<and>
      length (indexColumns t2 ''rhn_pe_v_r_e_uq'') = 5)"
proof -
  have a: "Name (emptyTable ''rhnpackage'') \<noteq> ''rhnpackageevr''"
    by (simp add: emptyTable_def)
  have b: "Name (emptyTable ''rhnpackageevr'') = ''rhnpackageevr'' \<and>
           UniqueIndexes (emptyTable ''rhnpackageevr'') = Some Map.empty"
    by (simp add: emptyTable_def)
  have c: "indexColumns (emptyTable ''rhnpackageevr'') ''rhn_pe_v_r_e_uq'' = []"
    by (simp add: emptyTable_def indexColumns_def)
  have u: "sharedColumns (emptyTable ''rhnpackageevr'') ''rhn_pe_v_r_e_uq'' = None \<and>
           sharedColumns (emptyTable ''rhnpackageevr'') ''rhn_pe_v_r_uq'' = None"
    by (simp add: emptyTable_def)
  have d: "Name sharedEvrTable = ''rhnpackageevr'' \<and>
           UniqueIndexes sharedEvrTable =
             Some [''rhn_pe_v_r_e_uq'' \<mapsto>
                     \<lparr>IndexName = ''rhn_pe_v_r_e_uq'',
                      Columns = [''version'', ''release'', ''epoch'']\<rparr>,
                   ''rhn_pe_v_r_uq'' \<mapsto>
                     \<lparr>IndexName = ''rhn_pe_v_r_uq'', Columns = [''version'', ''release'']\<rparr>]"
    by (simp add: sharedEvrTable_def emptyTable_def)
  have e: "length (indexColumns sharedEvrTable ''rhn_pe_v_r_e_uq'') = 3"
    by (simp add: sharedEvrTable_def emptyTable_def indexColumns_def)
  from idempotent_except_rhnpackageevr [of "emptyTable ''rhnpackage''" Map.empty] a
  have one: "andThen (applyTableFilters (emptyTable ''rhnpackage'')) applyTableFilters
     = applyTableFilters (emptyTable ''rhnpackage'')"
    by blast
  from idempotent_except_rhnpackageevr [of "emptyTable ''rhnpackageevr''" Map.empty] b u
  obtain t1 t2 where "applyTableFilters (emptyTable ''rhnpackageevr'') = Inr t1"
    and "applyTableFilters t1 = Inr t2" and "t2 \<noteq> t1"
    and "indexColumns t1 ''rhn_pe_v_r_e_uq'' =
           indexColumns (emptyTable ''rhnpackageevr'') ''rhn_pe_v_r_e_uq'' @ [''type'']"
    and "indexColumns t2 ''rhn_pe_v_r_e_uq'' =
           indexColumns (emptyTable ''rhnpackageevr'') ''rhn_pe_v_r_e_uq'' @ [''type'', ''type'']"
    by blast
  with c have two: "\<exists>t1 t2. applyTableFilters (emptyTable ''rhnpackageevr'') = Inr t1 \<and>
      applyTableFilters t1 = Inr t2 \<and> t2 \<noteq> t1 \<and>
      indexColumns t1 ''rhn_pe_v_r_e_uq'' = [''type''] \<and>
      indexColumns t2 ''rhn_pe_v_r_e_uq'' = [''type'', ''type'']"
    by (intro exI [of _ t1] exI [of _ t2]) simp
  from idempotent_except_rhnpackageevr [of sharedEvrTable] d
  obtain s1 s2 where "applyTableFilters sharedEvrTable = Inr s1"
    and "applyTableFilters s1 = Inr s2" and "s2 \<noteq> s1"
    and "length (indexColumns s1 ''rhn_pe_v_r_e_uq'') =
           length (indexColumns sharedEvrTable ''rhn_pe_v_r_e_uq'') + 1"
    and "length (indexColumns s2 ''rhn_pe_v_r_e_uq'') =
           length (indexColumns sharedEvrTable ''rhn_pe_v_r_e_uq'') + 2"
    by blast
  with e have three: "\<exists>t1 t2. applyTableFilters sharedEvrTable = Inr t1 \<and>
      applyTableFilters t1 = Inr t2 \<and> t2 \<noteq> t1 \<and>
      length (indexColumns t1 ''rhn_pe_v_r_e_uq'') = 4 \<and>
      length (indexColumns t2 ''rhn_pe_v_r_e_uq'') = 5"
    by (intro exI [of _ s1] exI [of _ s2]) simp
  from one two three show ?thesis by (intro conjI)
qed

subsection \<open>A row without the column a callback looks for\<close>

text \<open>
  Claim C3 at two rows that have a \<open>category\<close> starting with \<open>Image\<close> and no column
  named \<open>pillar\<close>: the callback of \<open>susesaltpillar\<close> then takes column 0 for the pillar.
  When column 0 holds bytes, they are rewritten although the column has another name;
  when it holds a string, the type assertion panics. In neither case is the row
  returned as it was.
\<close>

theorem susesaltpillar_missing_pillar:
  "susesaltpillarCallback
     [column ''notes'' ''bytea'' (VBytes ''see https://old.example/os-images/a''),
      column ''category'' ''varchar'' (VString ''Image-x'')]
   = Inr [column ''notes'' ''bytea'' (VBytes ''see https://{SERVER_FQDN}/os-images/a''),
          column ''category'' ''varchar'' (VString ''Image-x'')] \<and>
   susesaltpillarCallback [column ''category'' ''varchar'' (VString ''Image-x'')]
   = Inl TypeAssertion"
  by (simp add: susesaltpillarCallback_def column_def HasPrefix_def matchHere_def repl_def)

subsection \<open>The callback of rhnerrata\<close>

text \<open>
  Claim C5. The callback that \<open>applyTableFilters\<close> installs for \<open>rhnerrata\<close> returns, for
  every row, a row of the same length with the same column names in the same order, in
  which every column named \<open>severity_id\<close> has its initial value as value, whatever the
  value was, and every other column is as it was.
\<close>

theorem rhnerrata_callback_resets_severity:
  assumes "Name table = ''rhnerrata''"
  shows "\<exists>table' f. applyTableFilters table = Inr table' \<and> RowModCallback table' = Some f \<and>
     (\<forall>value. \<exists>out. f value = Inr out \<and> length out = length value \<and>
        map ColumnName out = map ColumnName value \<and>
        (\<forall>i<length value.
           out ! i = (if ColumnName (value ! i) = ''severity_id''
                      then (value ! i)\<lparr>Value := GetInitialValue (value ! i)\<rparr>
                      else value ! i)))"
proof -
  have "map ColumnName (rhnerrataCallback value) = map ColumnName value" for "value"
    by (induction "value") simp_all
  then show ?thesis using assms
    by (simp add: applyTableFilters_def rhnerrataCallback_map GetInitialValue_def)
qed

theorem rhnerrata_callback_resets_severity_witness:
  "\<exists>table' f. applyTableFilters (emptyTable ''rhnerrata'') = Inr table' \<and>
     RowModCallback table' = Some f \<and>
     (\<forall>value. \<exists>out. f value = Inr out \<and> length out = length value \<and>
        map ColumnName out = map ColumnName value \<and>
        (\<forall>i<length value.
           out ! i = (if ColumnName (value ! i) = ''severity_id''
                      then (value ! i)\<lparr>Value := GetInitialValue (value ! i)\<rparr>
                      else value ! i)))"
proof -
  have a: "Name (emptyTable ''rhnerrata'') = ''rhnerrata''"
    by (simp add: emptyTable_def)
  show ?thesis by (rule rhnerrata_callback_resets_severity [OF a])
qed

subsection \<open>The retargeted reference of suseimageprofile\<close>

text \<open>
  Claim C6, as stated, fails when the input already has an edge to \<open>rhnactivationkey\<close>
  with the same column mapping: the input below has exactly one edge to \<open>rhnregtoken\<close>,
  and the result has two such edges to \<open>rhnactivationkey\<close>, not exactly one.
\<close>

theorem retarget_counterexample:
  "length (edgesTo ''rhnregtoken'' (References retargetExample)) = 1 \<and>
   map_sum id (\<lambda>t. edgesTo ''rhnactivationkey'' (References t))
     (applyTableFilters retargetExample)
     = Inr [activationKeyRef, activationKeyRef]"
  by (simp add: retargetExample_def emptyTable_def edgesTo_def applyTableFilters_def
        activationKeyRef_def)

text \<open>
  Claim C6, amended. For a table named \<open>suseimageprofile\<close> whose references have exactly
  one edge to \<open>rhnregtoken\<close>, the references after \<open>applyTableFilters\<close> are the input's with
  that edge replaced, in its place, by the edge to \<open>rhnactivationkey\<close> with the column
  mapping \<open>token_id\<close> to \<open>reg_token_id\<close>; every other edge is unchanged and in its place;
  no edge to \<open>rhnregtoken\<close> is left; and the edges to \<open>rhnactivationkey\<close> are one more
  than the input had, so exactly one when the input had none.
\<close>

theorem retarget_single_edge:
  assumes "Name table = ''suseimageprofile''"
    and "References table = pre @ [r] @ post"
    and "TableName r = ''rhnregtoken''"
    and "\<forall>x \<in> set (pre @ post). TableName x \<noteq> ''rhnregtoken''"
  shows "\<exists>table'. applyTableFilters table = Inr table' \<and>
           References table' = pre @ [activationKeyRef] @ post \<and>
           edgesTo ''rhnregtoken'' (References table') = [] \<and>
           length (edgesTo ''rhnactivationkey'' (References table')) =
             Suc (length (edgesTo ''rhnactivationkey'' (References table)))"
proof -
  have m: "map (\<lambda>r. if TableName r = ''rhnregtoken'' then activationKeyRef else r) xs = xs"
    if "\<forall>x \<in> set xs. TableName x \<noteq> ''rhnregtoken''" for xs
    using that by (induction xs) simp_all
  have e: "edgesTo ''rhnregtoken'' xs = []"
    if "\<forall>x \<in> set xs. TableName x \<noteq> ''rhnregtoken''" for xs
    using that by (induction xs) (simp_all add: edgesTo_def)
  have a: "edgesTo n (xs @ ys) = edgesTo n xs @ edgesTo n ys" for n xs ys
    by (simp add: edgesTo_def)
  have res: "applyTableFilters table =
      Inr (table\<lparr>PKSequence := ''suse_imgprof_prid_seq'',
                References := pre @ [activationKeyRef] @ post\<rparr>)"
    using assms m[of pre] m[of post]
    by (simp add: applyTableFilters_def retargetReferences_map)
  show ?thesis
    using assms(2,3,4) e[of pre] e[of post]
    by (simp add: res a) (simp add: edgesTo_def activationKeyRef_def)
qed

theorem retarget_single_edge_witness:
  "\<exists>table'. applyTableFilters retargetExample = Inr table' \<and>
     References table' = [] @ [activationKeyRef] @ [activationKeyRef] \<and>
     edgesTo ''rhnregtoken'' (References table') = [] \<and>
     length (edgesTo ''rhnactivationkey'' (References table')) =
       Suc (length (edgesTo ''rhnactivationkey'' (References retargetExample)))"
proof -
  have a: "Name retargetExample = ''suseimageprofile''"
    by (simp add: retargetExample_def emptyTable_def)
  have b: "References retargetExample =
      [] @ [\<lparr>TableName = ''rhnregtoken'', ColumnMapping = [''token_id'' \<mapsto> ''id'']\<rparr>]
         @ [activationKeyRef]"
    by (simp add: retargetExample_def emptyTable_def activationKeyRef_def)
  have c: "TableName \<lparr>TableName = ''rhnregtoken'', ColumnMapping = [''token_id'' \<mapsto> ''id'']\<rparr>
             = ''rhnregtoken''"
    by simp
  have d: "\<forall>x \<in> set ([] @ [activationKeyRef]). TableName x \<noteq> ''rhnregtoken''"
    by (simp add: activationKeyRef_def)
  show ?thesis by (rule retarget_single_edge [OF a b c d])
qed

subsection \<open>The callback of susesaltpillar\<close>

text \<open>
  Claim C4. Take a row with distinct column names that has, at any two positions, a
  column \<open>category\<close> holding a string \<open>s\<close> and a column \<open>pillar\<close> holding bytes \<open>b\<close>. If
  \<open>s\<close> starts with \<open>Image\<close>, the callback returns the row with only the value of \<open>pillar\<close>
  changed, to \<open>ReplaceAll b\<close>, which is \<open>b\<close> with every occurrence of
  \<^verbatim>\<open>https://<host>/os-images/\<close> replaced by \<^verbatim>\<open>https://{SERVER_FQDN}/os-images/\<close> and no
  other byte changed (and is the only byte string so related to \<open>b\<close>). If \<open>s\<close> does not
  start with \<open>Image\<close>, the callback returns the row as it is.
\<close>

theorem susesaltpillar_callback_rewrites_urls:
  assumes "distinct (map ColumnName value)"
    and "c < length value" "ColumnName (value ! c) = ''category''" "Value (value ! c) = VString s"
    and "p < length value" "ColumnName (value ! p) = ''pillar''" "Value (value ! p) = VBytes b"
  shows "(HasPrefix s ''Image'' \<longrightarrow>
            susesaltpillarCallback value =
              Inr (value[p := (value ! p)\<lparr>Value := VBytes (ReplaceAll b)\<rparr>]) \<and>
            rewritten b (ReplaceAll b) \<and>
            (\<forall>out. rewritten b out \<longrightarrow> out = ReplaceAll b)) \<and>
         (\<not> HasPrefix s ''Image'' \<longrightarrow> susesaltpillarCallback value = Inr value)"
proof -
  have cat: "x = value ! c" if "x \<in> set value" "ColumnName x = ''category''" for x
    using unique_column[OF assms(1,2) that(1)] that(2) assms(3) by simp
  have typed: "categoryTyped value"
    unfolding categoryTyped_def
  proof (intro ballI impI)
    fix x assume "x \<in> set value" "ColumnName x = ''category''"
    from cat[OF this] show "isString (Value x)" by (simp add: assms(4) isString_def)
  qed
  have here: "isImageColumn (value ! c) \<longleftrightarrow> HasPrefix s ''Image''"
    by (simp add: isImageColumn_def assms(3,4))
  have img: "isImageRow value \<longleftrightarrow> HasPrefix s ''Image''"
  proof
    assume "isImageRow value"
    then obtain x where x: "x \<in> set value" "isImageColumn x"
      unfolding isImageRow_def by blast
    from x(2) have "ColumnName x = ''category''" by (simp add: isImageColumn_def)
    from cat[OF x(1) this] x(2) here show "HasPrefix s ''Image''" by simp
  next
    assume "HasPrefix s ''Image''"
    with here have "isImageColumn (value ! c)" by simp
    moreover have "value ! c \<in> set value" using assms(2) by simp
    ultimately show "isImageRow value" unfolding isImageRow_def by blast
  qed
  have "pillarIndexes value = [p]"
    unfolding pillarIndexes_def
    using indexes_of_unique_column[OF assms(1,5)] unfolding assms(6) .
  then have sel: "selectedPillar value = p" by (simp add: selectedPillar_def)
  have call: "susesaltpillarCallback value =
     (if HasPrefix s ''Image''
      then Inr (value[p := (value ! p)\<lparr>Value := VBytes (ReplaceAll b)\<rparr>]) else Inr value)"
    unfolding susesaltpillarCallback_typed[OF typed] img sel assms(7) by simp
  have uniq: "\<forall>out. rewritten b out \<longrightarrow> out = ReplaceAll b"
    using rewritten_unique by blast
  show ?thesis
  proof (intro conjI impI)
    assume "HasPrefix s ''Image''"
    then show "susesaltpillarCallback value =
        Inr (value[p := (value ! p)\<lparr>Value := VBytes (ReplaceAll b)\<rparr>])"
      unfolding call by simp
  next
    show "rewritten b (ReplaceAll b)" by (rule ReplaceAll_rewritten)
  next
    show "\<forall>out. rewritten b out \<longrightarrow> out = ReplaceAll b" by (rule uniq)
  next
    assume "\<not> HasPrefix s ''Image''"
    then show "susesaltpillarCallback value = Inr value"
      unfolding call by simp
  qed
qed

theorem susesaltpillar_callback_rewrites_urls_witness:
  "susesaltpillarCallback pillarRow =
     Inr [column ''pillar'' ''bytea''
            (VBytes ''a https://{SERVER_FQDN}/os-images/x b https://{SERVER_FQDN}/os-images/y''),
          column ''id'' ''int4'' (VInt 7),
          column ''category'' ''varchar'' (VString ''Image-pxe'')]"
proof -
  have a: "distinct (map ColumnName pillarRow)" by (simp add: pillarRow_def column_def)
  have b: "2 < length pillarRow" by (simp add: pillarRow_def)
  have c: "ColumnName (pillarRow ! 2) = ''category''" by (simp add: pillarRow_def column_def)
  have d: "Value (pillarRow ! 2) = VString ''Image-pxe''" by (simp add: pillarRow_def column_def)
  have e: "0 < length pillarRow" by (simp add: pillarRow_def)
  have f: "ColumnName (pillarRow ! 0) = ''pillar''" by (simp add: pillarRow_def column_def)
  have g: "Value (pillarRow ! 0) =
             VBytes ''a https://old.example/os-images/x b https://h2/os-images/y''"
    by (simp add: pillarRow_def column_def)
  have h: "HasPrefix ''Image-pxe'' ''Image''" by (simp add: HasPrefix_def)
  have r: "ReplaceAll ''a https://old.example/os-images/x b https://h2/os-images/y'' =
             ''a https://{SERVER_FQDN}/os-images/x b https://{SERVER_FQDN}/os-images/y''"
    by (simp add: matchHere_def repl_def)
  from susesaltpillar_callback_rewrites_urls [OF a b c d e f g] h
  have "susesaltpillarCallback pillarRow =
          Inr (pillarRow[0 := (pillarRow ! 0)\<lparr>Value := VBytes (ReplaceAll
            ''a https://old.example/os-images/x b https://h2/os-images/y'')\<rparr>])"
    by blast
  then show ?thesis unfolding r by (simp add: pillarRow_def column_def)
qed

text \<open>
  Claim C10. The callback of \<open>susesaltpillar\<close> returns a row exactly for the rows in
  which every column named \<open>category\<close> holds a string and, when one of them starts with
  \<open>Image\<close>, the selected pillar column holds bytes. On every other row a type assertion
  panics; a row whose only column is a \<open>category\<close> holding an integer is one.
\<close>

theorem susesaltpillar_callback_typing:
  "(pillarTyped value \<longrightarrow> (\<exists>out. susesaltpillarCallback value = Inr out)) \<and>
   (\<not> pillarTyped value \<longrightarrow> susesaltpillarCallback value = Inl TypeAssertion) \<and>
   susesaltpillarCallback [column ''category'' ''int4'' (VInt 7)] = Inl TypeAssertion"
proof (intro conjI impI)
  assume "pillarTyped value"
  then show "\<exists>out. susesaltpillarCallback value = Inr out"
    by (auto simp add: pillarTyped_def susesaltpillarCallback_typed isBytes_def
          split: sqlvalue.splits)
next
  assume n: "\<not> pillarTyped value"
  show "susesaltpillarCallback value = Inl TypeAssertion"
  proof (cases "categoryTyped value")
    case False
    then show ?thesis by (simp add: susesaltpillarCallback_def pillarScan_untyped)
  next
    case True
    with n show ?thesis
      by (auto simp add: pillarTyped_def susesaltpillarCallback_typed isBytes_def
            split: sqlvalue.splits)
  qed
next
  show "susesaltpillarCallback [column ''category'' ''int4'' (VInt 7)] = Inl TypeAssertion"
    by (simp add: susesaltpillarCallback_def column_def)
qed

theorem susesaltpillar_callback_typing_witness:
  "pillarTyped pillarRow \<and> (\<exists>out. susesaltpillarCallback pillarRow = Inr out) \<and>
   \<not> pillarTyped [column ''pillar'' ''bytea'' VNil, column ''category'' ''varchar'' (VString ''Image'')] \<and>
   susesaltpillarCallback
     [column ''pillar'' ''bytea'' VNil, column ''category'' ''varchar'' (VString ''Image'')]
     = Inl TypeAssertion"
proof -
  have a: "pillarTyped pillarRow"
    by (simp add: pillarTyped_def categoryTyped_def isImageRow_def isImageColumn_def
          selectedPillar_def pillarIndexes_def pillarRow_def column_def isString_def
          isBytes_def HasPrefix_def)
  have b: "\<not> pillarTyped
      [column ''pillar'' ''bytea'' VNil, column ''category'' ''varchar'' (VString ''Image'')]"
    by (simp add: pillarTyped_def categoryTyped_def isImageRow_def isImageColumn_def
          selectedPillar_def pillarIndexes_def column_def isString_def
          isBytes_def HasPrefix_def)
  from susesaltpillar_callback_typing [of pillarRow] a have c: "\<exists>out. susesaltpillarCallback pillarRow = Inr out"
    by blast
  from susesaltpillar_callback_typing [of "[column ''pillar'' ''bytea'' VNil,
                    column ''category'' ''varchar'' (VString ''Image'')]"] b
  have d: "susesaltpillarCallback
     [column ''pillar'' ''bytea'' VNil, column ''category'' ''varchar'' (VString ''Image'')]
     = Inl TypeAssertion"
    by blast
  from a b c d show ?thesis by (intro conjI)
qed

end
